theory Spec2Isabelle
  imports Main "HOL-Library.List_Lexorder" "HOL-Library.Char_ord"
begin

section \<open>Python values used by \<open>auto_backup_s3/models/db_backup.py\<close>\<close>

subsection \<open>Exceptions\<close>

text \<open>
  The exception classes the module names or can meet, with their method resolution
  order up to \<open>Exception\<close>. \<open>NoCredentialsError\<close> and \<open>EndpointConnectionError\<close>
  derive from \<open>BotoCoreError\<close>; \<open>ClientError\<close> and boto3's \<open>S3UploadFailedError\<close>
  do not. \<open>OtherException\<close> stands for any further direct subclass of \<open>Exception\<close>.
  Only subclasses of \<open>Exception\<close> are modelled: \<open>except Exception\<close> catches them all.
\<close>

datatype pyclass =
    Exception | OSError | FileNotFoundError | PermissionError
  | AttributeError | ValueError
  | BotoCoreError | NoCredentialsError | EndpointConnectionError
  | ClientError | S3UploadFailedError | UserError | OtherException

fun mro :: "pyclass \<Rightarrow> pyclass list" where
  "mro Exception = [Exception]"
| "mro OSError = [OSError, Exception]"
| "mro FileNotFoundError = [FileNotFoundError, OSError, Exception]"
| "mro PermissionError = [PermissionError, OSError, Exception]"
| "mro AttributeError = [AttributeError, Exception]"
| "mro ValueError = [ValueError, Exception]"
| "mro BotoCoreError = [BotoCoreError, Exception]"
| "mro NoCredentialsError = [NoCredentialsError, BotoCoreError, Exception]"
| "mro EndpointConnectionError = [EndpointConnectionError, BotoCoreError, Exception]"
| "mro ClientError = [ClientError, Exception]"
| "mro S3UploadFailedError = [S3UploadFailedError, Exception]"
| "mro UserError = [UserError, Exception]"
| "mro OtherException = [OtherException, Exception]"

text \<open>An exception value: its class and what \<open>str(e)\<close> gives.\<close>

datatype exn = Exn (exn_class: pyclass) (str: string)

definition isinstance :: "exn \<Rightarrow> pyclass \<Rightarrow> bool" where
  "isinstance e c = (c \<in> set (mro (exn_class e)))"

subsection \<open>Strings and paths\<close>

text \<open>
  \<open>str.strip()\<close> removes leading and trailing whitespace characters. Strings are lists
  of bytes here (UTF-8), so a whitespace character is one of the byte sequences below:
  U+0009 to U+000D, U+001C to U+0020, U+0085, U+00A0, U+1680, U+2000 to U+200A, U+2028,
  U+2029, U+202F, U+205F and U+3000.
\<close>

definition whitespace :: "string list" where
  "whitespace =
     [[CHR 0x09], [CHR 0x0A], [CHR 0x0B], [CHR 0x0C], [CHR 0x0D],
      [CHR 0x1C], [CHR 0x1D], [CHR 0x1E], [CHR 0x1F], [CHR 0x20],
      [CHR 0xC2, CHR 0x85], [CHR 0xC2, CHR 0xA0],
      [CHR 0xE1, CHR 0x9A, CHR 0x80],
      [CHR 0xE2, CHR 0x80, CHR 0x80], [CHR 0xE2, CHR 0x80, CHR 0x81],
      [CHR 0xE2, CHR 0x80, CHR 0x82], [CHR 0xE2, CHR 0x80, CHR 0x83],
      [CHR 0xE2, CHR 0x80, CHR 0x84], [CHR 0xE2, CHR 0x80, CHR 0x85],
      [CHR 0xE2, CHR 0x80, CHR 0x86], [CHR 0xE2, CHR 0x80, CHR 0x87],
      [CHR 0xE2, CHR 0x80, CHR 0x88], [CHR 0xE2, CHR 0x80, CHR 0x89],
      [CHR 0xE2, CHR 0x80, CHR 0x8A],
      [CHR 0xE2, CHR 0x80, CHR 0xA8], [CHR 0xE2, CHR 0x80, CHR 0xA9],
      [CHR 0xE2, CHR 0x80, CHR 0xAF], [CHR 0xE2, CHR 0x81, CHR 0x9F],
      [CHR 0xE3, CHR 0x80, CHR 0x80]]"

text \<open>
  Removing the characters of \<open>ws\<close> from the front of \<open>s\<close>, at most \<open>n\<close> of them (each
  takes at least one byte, so \<open>length s\<close> is enough).
\<close>

fun lstrip_chars :: "string list \<Rightarrow> nat \<Rightarrow> string \<Rightarrow> string" where
  "lstrip_chars ws 0 s = s"
| "lstrip_chars ws (Suc n) s =
     (case find (\<lambda>w. take (length w) s = w) ws of
        None \<Rightarrow> s
      | Some w \<Rightarrow> lstrip_chars ws n (drop (length w) s))"

definition strip :: "string \<Rightarrow> string" where
  "strip s =
     (let l = lstrip_chars whitespace (length s) s
      in rev (lstrip_chars (map rev whitespace) (length l) (rev l)))"

text \<open>\<open>s.split(sep)\<close> for a one-character separator: never an empty list.\<close>

fun split :: "char \<Rightarrow> string \<Rightarrow> string list" where
  "split sep [] = [[]]"
| "split sep (c # cs) =
     (if c = sep then [] # split sep cs
      else (c # hd (split sep cs)) # tl (split sep cs))"

text \<open>\<open>os.path.basename\<close> (posixpath): what follows the last slash.\<close>

definition basename :: "string \<Rightarrow> string" where
  "basename p = rev (takeWhile (\<lambda>c. c \<noteq> CHR ''/'') (rev p))"

text \<open>\<open>os.path.join(a, b)\<close> (posixpath, two arguments).\<close>

definition path_join :: "string \<Rightarrow> string \<Rightarrow> string" where
  "path_join a b =
     (if b \<noteq> [] \<and> hd b = CHR ''/'' then b
      else if a = [] \<or> last a = CHR ''/'' then a @ b
      else a @ ''/'' @ b)"

subsection \<open>Sets\<close>

text \<open>
  A Python set is held as a list without duplicates. The order in which a \<open>for\<close> loop
  visits a set is not specified by the language: it is an argument \<open>rank\<close> of the model
  (the environment's \<open>set_order\<close>: lower rank first), so that a theorem about a cycle
  holds for every order in which the cycle may visit its two sets.
\<close>

definition set_difference :: "string list \<Rightarrow> string list \<Rightarrow> string list" where
  "set_difference xs ys = filter (\<lambda>x. x \<notin> set ys) xs"

definition set_iter :: "(string \<Rightarrow> nat) \<Rightarrow> string list \<Rightarrow> string list" where
  "set_iter rank xs = sort_key rank (remdups xs)"

section \<open>The model's fields (\<open>db.backup\<close> records)\<close>

text \<open>
  \<open>folder\<close> is the field of the inherited model; the others are declared by this
  module. An unset Odoo \<open>Char\<close> field reads as \<open>False\<close>: \<open>s3_folder_name\<close>, the one
  field the code calls a method on, is an option (\<open>None\<close> when unset). The other
  text fields are handed unchanged to the operating system and to boto3.
\<close>

record db_backup =
  folder :: string
  s3_write :: bool
  s3_bucket_name :: string
  s3_access_key :: string
  s3_secret_key :: string
  s3_region :: string
  s3_folder_name :: "string option"

section \<open>The world outside: file system, boto3, the S3 service\<close>

datatype s3_client = S3Client string string string

datatype event =
    ListDir string
  | Boto3Client string string string
  | ListObjectsV2 s3_client string "string option"
  | UploadFile s3_client string string string
  | DeleteObject s3_client string string
  | LogInfo string
  | LogError string

text \<open>
  What the program cannot decide is an argument: the outcome of \<open>os.listdir\<close> and
  \<open>os.path.isfile\<close>, the exception (if any) each boto3 call raises, the page size of
  the service (\<open>MaxKeys\<close>, 1000 at AWS), and the iteration order of sets.
\<close>

record env =
  listdir :: "string \<Rightarrow> exn + string list"
  isfile :: "string \<Rightarrow> bool"
  client_error :: "string \<Rightarrow> string \<Rightarrow> string \<Rightarrow> exn option"
  list_error :: "s3_client \<Rightarrow> string \<Rightarrow> string option \<Rightarrow> exn option"
  upload_error :: "s3_client \<Rightarrow> string \<Rightarrow> string \<Rightarrow> string \<Rightarrow> exn option"
  delete_error :: "s3_client \<Rightarrow> string \<Rightarrow> string \<Rightarrow> exn option"
  max_keys :: nat
  set_order :: "string \<Rightarrow> nat"

text \<open>
  What the program changes: the keys stored in each bucket (in the service's listing
  order, ascending), and the trace of calls and log lines, oldest first.
\<close>

record state =
  buckets :: "string \<Rightarrow> string list"
  trace :: "event list"

definition emit :: "event \<Rightarrow> state \<Rightarrow> state" where
  "emit ev st = st\<lparr>trace := trace st @ [ev]\<rparr>"

definition log_info :: "string \<Rightarrow> state \<Rightarrow> state" where
  "log_info msg st = emit (LogInfo msg) st"

definition log_error :: "string \<Rightarrow> state \<Rightarrow> state" where
  "log_error msg st = emit (LogError msg) st"

subsection \<open>boto3\<close>

definition boto3_client ::
  "env \<Rightarrow> state \<Rightarrow> string \<Rightarrow> string \<Rightarrow> string \<Rightarrow> (exn + s3_client) \<times> state" where
  "boto3_client ev st access_key secret_key region =
     (let st1 = emit (Boto3Client access_key secret_key region) st in
      case client_error ev access_key secret_key region of
        Some e \<Rightarrow> (Inl e, st1)
      | None \<Rightarrow> (Inr (S3Client access_key secret_key region), st1))"

record s3_object =
  Key :: string

record list_response =
  Contents :: "s3_object list option"
  IsTruncated :: bool

definition startswith :: "string \<Rightarrow> string \<Rightarrow> bool" where
  "startswith k p = (take (length p) k = p)"

definition matching_keys :: "state \<Rightarrow> string \<Rightarrow> string option \<Rightarrow> string list" where
  "matching_keys st bucket prefix =
     (case prefix of
        None \<Rightarrow> buckets st bucket
      | Some p \<Rightarrow> filter (\<lambda>k. startswith k p) (buckets st bucket))"

text \<open>
  One \<open>list_objects_v2\<close> request without a continuation token: the first page of the
  matching keys. The response has no \<open>Contents\<close> entry when nothing matches.
\<close>

definition list_objects_v2 ::
  "env \<Rightarrow> state \<Rightarrow> s3_client \<Rightarrow> string \<Rightarrow> string option \<Rightarrow> (exn + list_response) \<times> state" where
  "list_objects_v2 ev st c bucket prefix =
     (let st1 = emit (ListObjectsV2 c bucket prefix) st in
      case list_error ev c bucket prefix of
        Some e \<Rightarrow> (Inl e, st1)
      | None \<Rightarrow>
          (let found = matching_keys st bucket prefix;
               page = take (max_keys ev) found
           in (Inr \<lparr>Contents = (if page = [] then None
                                 else Some (map (\<lambda>k. \<lparr>Key = k\<rparr>) page)),
                     IsTruncated = (max_keys ev < length found)\<rparr>, st1)))"

definition put_key :: "string \<Rightarrow> string list \<Rightarrow> string list" where
  "put_key k ks = (if k \<in> set ks then ks else insort k ks)"

definition upload_file ::
  "env \<Rightarrow> state \<Rightarrow> s3_client \<Rightarrow> string \<Rightarrow> string \<Rightarrow> string \<Rightarrow> (exn + unit) \<times> state" where
  "upload_file ev st c file_path bucket k =
     (let st1 = emit (UploadFile c file_path bucket k) st in
      case upload_error ev c file_path bucket k of
        Some e \<Rightarrow> (Inl e, st1)
      | None \<Rightarrow> (Inr (), st1\<lparr>buckets := (buckets st1)(bucket := put_key k (buckets st1 bucket))\<rparr>))"

definition delete_object ::
  "env \<Rightarrow> state \<Rightarrow> s3_client \<Rightarrow> string \<Rightarrow> string \<Rightarrow> (exn + unit) \<times> state" where
  "delete_object ev st c bucket k =
     (let st1 = emit (DeleteObject c bucket k) st in
      case delete_error ev c bucket k of
        Some e \<Rightarrow> (Inl e, st1)
      | None \<Rightarrow> (Inr (), st1\<lparr>buckets := (buckets st1)(bucket := removeAll k (buckets st1 bucket))\<rparr>))"

section \<open>The methods of \<open>DbBackup\<close>\<close>

subsection \<open>\<open>upload_to_s3\<close>\<close>

text \<open>
  The \<open>try\<close> body, then the one handler: \<open>except (BotoCoreError, NoCredentialsError)\<close>
  logs and raises \<open>UserError\<close>; an exception of any other class leaves the method as
  it is. The translation function \<open>_\<close> is taken as the identity.
\<close>

definition upload_to_s3_try ::
  "env \<Rightarrow> state \<Rightarrow> string \<Rightarrow> string \<Rightarrow> string \<Rightarrow> string \<Rightarrow> string \<Rightarrow> string
     \<Rightarrow> (exn + unit) \<times> state" where
  "upload_to_s3_try ev st file_path bucket_name s3_key access_key secret_key region =
     (case boto3_client ev st access_key secret_key region of
        (Inl e, st1) \<Rightarrow> (Inl e, st1)
      | (Inr c, st1) \<Rightarrow>
          (case upload_file ev st1 c file_path bucket_name s3_key of
             (Inl e, st2) \<Rightarrow> (Inl e, st2)
           | (Inr u, st2) \<Rightarrow>
               (Inr (), log_info (''Successfully uploaded '' @ file_path
                                   @ '' to S3 bucket '' @ bucket_name) st2)))"

definition upload_to_s3 ::
  "env \<Rightarrow> state \<Rightarrow> string \<Rightarrow> string \<Rightarrow> string \<Rightarrow> string \<Rightarrow> string \<Rightarrow> string
     \<Rightarrow> (exn + unit) \<times> state" where
  "upload_to_s3 ev st file_path bucket_name s3_key access_key secret_key region =
     (case upload_to_s3_try ev st file_path bucket_name s3_key access_key secret_key region of
        (Inl e, st1) \<Rightarrow>
          (if isinstance e BotoCoreError \<or> isinstance e NoCredentialsError
           then (Inl (Exn UserError (''Failed to upload backup to S3: '' @ str e)),
                 log_error (''Failed to upload backup to S3: '' @ str e) st1)
           else (Inl e, st1))
      | (Inr u, st1) \<Rightarrow> (Inr (), st1))"

subsection \<open>\<open>get_s3_client\<close> and \<open>list_s3_objects\<close>\<close>

definition get_s3_client ::
  "env \<Rightarrow> state \<Rightarrow> string \<Rightarrow> string \<Rightarrow> string \<Rightarrow> (exn + s3_client) \<times> state" where
  "get_s3_client ev st access_key secret_key region =
     boto3_client ev st access_key secret_key region"

definition list_s3_objects ::
  "env \<Rightarrow> state \<Rightarrow> s3_client \<Rightarrow> string \<Rightarrow> string \<Rightarrow> (exn + s3_object list) \<times> state" where
  "list_s3_objects ev st c bucket_name folder_prefix =
     (case list_objects_v2 ev st c bucket_name (Some (folder_prefix @ ''/'')) of
        (Inl e, st1) \<Rightarrow> (Inl e, st1)
      | (Inr response, st1) \<Rightarrow>
          (Inr (case Contents response of None \<Rightarrow> [] | Some objs \<Rightarrow> objs), st1))"

subsection \<open>\<open>action_test_s3_connection\<close>\<close>

record notification =
  title :: string
  message :: string
  msg_type :: string
  sticky :: bool

record client_action =
  action_type :: string
  tag :: string
  params :: notification

text \<open>\<open>ensure_one\<close> raises \<open>ValueError\<close> unless the recordset holds one record.\<close>

definition ensure_one :: "db_backup list \<Rightarrow> exn + db_backup" where
  "ensure_one recs =
     (case recs of
        [r] \<Rightarrow> Inr r
      | _ \<Rightarrow> Inl (Exn ValueError ''Expected singleton''))"

definition test_s3_connection_try :: "env \<Rightarrow> state \<Rightarrow> db_backup \<Rightarrow> (exn + unit) \<times> state" where
  "test_s3_connection_try ev st r =
     (case get_s3_client ev st (s3_access_key r) (s3_secret_key r) (s3_region r) of
        (Inl e, st1) \<Rightarrow> (Inl e, st1)
      | (Inr c, st1) \<Rightarrow>
          (case list_objects_v2 ev st1 c (s3_bucket_name r) None of
             (Inl e, st2) \<Rightarrow> (Inl e, st2)
           | (Inr response, st2) \<Rightarrow> (Inr (), st2)))"

definition display_notification :: "string \<Rightarrow> string \<Rightarrow> string \<Rightarrow> client_action" where
  "display_notification t m ty =
     \<lparr>action_type = ''ir.actions.client'', tag = ''display_notification'',
      params = \<lparr>title = t, message = m, msg_type = ty, sticky = False\<rparr>\<rparr>"

definition action_test_s3_connection ::
  "env \<Rightarrow> state \<Rightarrow> db_backup list \<Rightarrow> (exn + client_action) \<times> state" where
  "action_test_s3_connection ev st self =
     (case ensure_one self of
        Inl e \<Rightarrow> (Inl e, st)
      | Inr r \<Rightarrow>
          (case test_s3_connection_try ev st r of
             (Inr u, st1) \<Rightarrow>
               (Inr (display_notification ''Connection Test Succeeded!''
                       ''Everything seems properly set up!'' ''success''), st1)
           | (Inl err, st1) \<Rightarrow>
               (Inr (display_notification ''Connection Test Failed!'' (str err) ''danger''),
                st1)))"

subsection \<open>\<open>schedule_backup\<close>\<close>

text \<open>The set comprehension over \<open>os.listdir\<close>: base-names of the regular files.\<close>

definition local_files :: "env \<Rightarrow> state \<Rightarrow> string \<Rightarrow> (exn + string list) \<times> state" where
  "local_files ev st folder_path =
     (let st1 = emit (ListDir folder_path) st in
      case listdir ev folder_path of
        Inl e \<Rightarrow> (Inl e, st1)
      | Inr names \<Rightarrow>
          (Inr (remdups (map basename
                  (filter (\<lambda>f. isfile ev (path_join folder_path f)) names))), st1))"

text \<open>\<open>{obj['Key'].split('/')[-1] for obj in s3_objects}\<close>\<close>

definition s3_file :: "s3_object \<Rightarrow> string" where
  "s3_file obj = last (split CHR ''/'' (Key obj))"

definition s3_files :: "s3_object list \<Rightarrow> string list" where
  "s3_files s3_objects = remdups (map s3_file s3_objects)"

definition files_to_upload :: "string list \<Rightarrow> string list \<Rightarrow> string list" where
  "files_to_upload local remote = set_difference local remote"

definition files_to_delete :: "string list \<Rightarrow> string list \<Rightarrow> string list" where
  "files_to_delete local remote = set_difference remote local"

text \<open>
  A \<open>for\<close> loop whose body may raise: the first exception ends the loop, with the
  state reached so far.
\<close>

fun for_loop ::
  "('a \<Rightarrow> state \<Rightarrow> (exn + unit) \<times> state) \<Rightarrow> 'a list \<Rightarrow> state \<Rightarrow> (exn + unit) \<times> state" where
  "for_loop body [] st = (Inr (), st)"
| "for_loop body (x # xs) st =
     (case body x st of
        (Inl e, st1) \<Rightarrow> (Inl e, st1)
      | (Inr u, st1) \<Rightarrow> for_loop body xs st1)"

text \<open>The body of \<open>for file_name in files_to_upload\<close>.\<close>

definition upload_one ::
  "env \<Rightarrow> db_backup \<Rightarrow> string \<Rightarrow> string \<Rightarrow> state \<Rightarrow> (exn + unit) \<times> state" where
  "upload_one ev r s3_folder file_name st =
     (let file_path = path_join (folder r) file_name;
          s3_key = s3_folder @ ''/'' @ file_name
      in case upload_to_s3 ev st file_path (s3_bucket_name r) s3_key
                (s3_access_key r) (s3_secret_key r) (s3_region r) of
           (Inr u, st1) \<Rightarrow> (Inr (), log_info (''Uploaded file to S3: '' @ s3_key) st1)
         | (Inl e, st1) \<Rightarrow>
             (if isinstance e UserError
              then (Inr (), log_error (''Failed to upload file '' @ file_name
                                        @ '' to S3: '' @ str e) st1)
              else (Inl e, st1)))"

text \<open>The body of \<open>for file_name in files_to_delete\<close>.\<close>

definition delete_one ::
  "env \<Rightarrow> db_backup \<Rightarrow> s3_client \<Rightarrow> string \<Rightarrow> string \<Rightarrow> state \<Rightarrow> (exn + unit) \<times> state" where
  "delete_one ev r c s3_folder file_name st =
     (let s3_key = s3_folder @ ''/'' @ file_name
      in case delete_object ev st c (s3_bucket_name r) s3_key of
           (Inr u, st1) \<Rightarrow> (Inr (), log_info (''Deleted file from S3: '' @ s3_key) st1)
         | (Inl e, st1) \<Rightarrow>
             (if isinstance e ClientError
              then (Inr (), log_error (''Failed to delete file '' @ s3_key
                                        @ '' from S3: '' @ str e) st1)
              else (Inl e, st1)))"

text \<open>What follows the listing: the two differences and the two loops.\<close>

definition reconcile ::
  "env \<Rightarrow> state \<Rightarrow> db_backup \<Rightarrow> s3_client \<Rightarrow> string \<Rightarrow> string list \<Rightarrow> s3_object list
     \<Rightarrow> (exn + unit) \<times> state" where
  "reconcile ev st r c s3_folder local s3_objects =
     (let remote = s3_files s3_objects in
      case for_loop (upload_one ev r s3_folder)
             (set_iter (set_order ev) (files_to_upload local remote)) st of
        (Inl e, st1) \<Rightarrow> (Inl e, st1)
      | (Inr u, st1) \<Rightarrow>
          for_loop (delete_one ev r c s3_folder)
            (set_iter (set_order ev) (files_to_delete local remote)) st1)"

text \<open>\<open>get_s3_client\<close> and \<open>list_s3_objects\<close> under their common \<open>try\<close>.\<close>

definition remote_listing ::
  "env \<Rightarrow> state \<Rightarrow> db_backup \<Rightarrow> string \<Rightarrow> (exn + s3_client \<times> s3_object list) \<times> state" where
  "remote_listing ev st r s3_folder =
     (case get_s3_client ev st (s3_access_key r) (s3_secret_key r) (s3_region r) of
        (Inl e, st1) \<Rightarrow> (Inl e, st1)
      | (Inr c, st1) \<Rightarrow>
          (case list_s3_objects ev st1 c (s3_bucket_name r) s3_folder of
             (Inl e, st2) \<Rightarrow> (Inl e, st2)
           | (Inr objs, st2) \<Rightarrow> (Inr (c, objs), st2)))"

text \<open>
  One pass of the \<open>for rec in conf_ids\<close> body. \<open>continue\<close> is a normal return;
  \<open>None.strip()\<close> raises \<open>AttributeError\<close> outside every \<open>try\<close>.
\<close>

definition schedule_backup_rec :: "env \<Rightarrow> state \<Rightarrow> db_backup \<Rightarrow> (exn + unit) \<times> state" where
  "schedule_backup_rec ev st r =
     (if \<not> s3_write r then (Inr (), st)
      else case s3_folder_name r of
        None \<Rightarrow> (Inl (Exn AttributeError ''bool object has no attribute strip''), st)
      | Some name \<Rightarrow>
          (let folder_path = folder r; s3_folder = strip name in
           case local_files ev st folder_path of
             (Inl e, st1) \<Rightarrow>
               (if isinstance e FileNotFoundError
                then (Inr (), log_error (''Folder not found: '' @ folder_path) st1)
                else (Inr (), log_error (''Error accessing folder '' @ folder_path
                                          @ '': '' @ str e) st1))
           | (Inr local, st1) \<Rightarrow>
               (case remote_listing ev st1 r s3_folder of
                  (Inl e, st2) \<Rightarrow>
                    (Inr (), log_error (''Error accessing S3 bucket '' @ s3_bucket_name r
                                         @ '': '' @ str e) st2)
                | (Inr (c, s3_objects), st2) \<Rightarrow>
                    reconcile ev st2 r c s3_folder local s3_objects)))"

text \<open>\<open>for rec in conf_ids\<close>\<close>

definition schedule_backup_loop :: "env \<Rightarrow> state \<Rightarrow> db_backup list \<Rightarrow> (exn + unit) \<times> state" where
  "schedule_backup_loop ev st conf_ids = for_loop (\<lambda>r s. schedule_backup_rec ev s r) conf_ids st"

text \<open>
  The entry point. The inherited \<open>schedule_backup\<close> of \<open>db.backup\<close> and the result of
  \<open>self.search([])\<close> are arguments; \<open>ev\<close> describes the file system as the inherited
  method leaves it.
\<close>

definition schedule_backup ::
  "(state \<Rightarrow> (exn + unit) \<times> state) \<Rightarrow> env \<Rightarrow> state \<Rightarrow> db_backup list \<Rightarrow> (exn + unit) \<times> state" where
  "schedule_backup super ev st conf_ids =
     (case super st of
        (Inl e, st1) \<Rightarrow> (Inl e, st1)
      | (Inr u, st1) \<Rightarrow> schedule_backup_loop ev st1 conf_ids)"

section \<open>Reading a trace\<close>

text \<open>The bucket and key of each \<open>upload_file\<close> and of each \<open>delete_object\<close> call, oldest first.\<close>

fun upload_calls :: "event list \<Rightarrow> (string \<times> string) list" where
  "upload_calls [] = []"
| "upload_calls (UploadFile c p b k # tr) = (b, k) # upload_calls tr"
| "upload_calls (x # tr) = upload_calls tr"

fun delete_calls :: "event list \<Rightarrow> (string \<times> string) list" where
  "delete_calls [] = []"
| "delete_calls (DeleteObject c b k # tr) = (b, k) # delete_calls tr"
| "delete_calls (x # tr) = delete_calls tr"

text \<open>The line the upload loop logs for a file whose upload failed, and the delete loop's.\<close>

definition upload_failure_log :: "string \<Rightarrow> exn \<Rightarrow> event" where
  "upload_failure_log file_name e =
     LogError (''Failed to upload file '' @ file_name @ '' to S3: ''
               @ ''Failed to upload backup to S3: '' @ str e)"

definition delete_failure_log :: "string \<Rightarrow> exn \<Rightarrow> event" where
  "delete_failure_log s3_key e =
     LogError (''Failed to delete file '' @ s3_key @ '' from S3: '' @ str e)"

text \<open>
  The names of all objects a bucket holds below \<open>prefix/\<close>, computed as the cycle
  computes them but from every key, not from one page.
\<close>

definition remote_object_set :: "state \<Rightarrow> string \<Rightarrow> string \<Rightarrow> string list" where
  "remote_object_set st bucket prefix =
     s3_files (map (\<lambda>k. \<lparr>Key = k\<rparr>)
       (filter (\<lambda>k. startswith k (prefix @ ''/'')) (buckets st bucket)))"

text \<open>No key below \<open>prefix/\<close> has a further slash after the prefix.\<close>

definition single_level :: "state \<Rightarrow> string \<Rightarrow> string \<Rightarrow> bool" where
  "single_level st bucket prefix =
     list_all (\<lambda>k. CHR ''/'' \<notin> set (drop (length prefix + 1) k))
       (filter (\<lambda>k. startswith k (prefix @ ''/'')) (buckets st bucket))"

text \<open>The first error of the connection test's two steps, if any.\<close>

definition connection_error :: "env \<Rightarrow> db_backup \<Rightarrow> exn option" where
  "connection_error ev r =
     (case client_error ev (s3_access_key r) (s3_secret_key r) (s3_region r) of
        Some e \<Rightarrow> Some e
      | None \<Rightarrow> list_error ev (S3Client (s3_access_key r) (s3_secret_key r) (s3_region r))
                  (s3_bucket_name r) None)"

section \<open>Example worlds\<close>

text \<open>
  The example of the specification: the folder \<open>/backups\<close> holds the files \<open>a.sql\<close>
  and \<open>b.sql\<close> and a directory \<open>old\<close>; the bucket \<open>bk\<close> holds \<open>db/b.sql\<close> and
  \<open>db/c.sql\<close>; no call fails.
\<close>

definition ex_rec :: db_backup where
  "ex_rec = \<lparr>folder = ''/backups'', s3_write = True, s3_bucket_name = ''bk'',
     s3_access_key = ''AK'', s3_secret_key = ''SK'', s3_region = ''eu'',
     s3_folder_name = Some '' db ''\<rparr>"

definition ex_env :: env where
  "ex_env = \<lparr>listdir = (\<lambda>p. if p = ''/backups'' then Inr [''a.sql'', ''b.sql'', ''old'']
                             else Inl (Exn FileNotFoundError ''No such file or directory'')),
     isfile = (\<lambda>p. p = ''/backups/a.sql'' \<or> p = ''/backups/b.sql''),
     client_error = (\<lambda>a s r. None),
     list_error = (\<lambda>c b p. None),
     upload_error = (\<lambda>c f b k. None),
     delete_error = (\<lambda>c b k. None),
     max_keys = 1000,
     set_order = length\<rparr>"

definition ex_state :: state where
  "ex_state = \<lparr>buckets = (\<lambda>b. if b = ''bk'' then [''db/b.sql'', ''db/c.sql''] else []),
     trace = []\<rparr>"

text \<open>The same bucket once it mirrors the folder.\<close>

definition ex_state_synced :: state where
  "ex_state_synced = \<lparr>buckets = (\<lambda>b. if b = ''bk'' then [''db/a.sql'', ''db/b.sql''] else []),
     trace = []\<rparr>"

text \<open>The bucket with a folder marker \<open>db/\<close> beside \<open>db/b.sql\<close>.\<close>

definition ex_state_marker :: state where
  "ex_state_marker = \<lparr>buckets = (\<lambda>b. if b = ''bk'' then [''db/'', ''db/b.sql''] else []),
     trace = []\<rparr>"

text \<open>The bucket with an object one folder deeper, \<open>db/sub/c.sql\<close>.\<close>

definition ex_state_nested :: state where
  "ex_state_nested = \<lparr>buckets = (\<lambda>b. if b = ''bk'' then [''db/b.sql'', ''db/sub/c.sql''] else []),
     trace = []\<rparr>"

text \<open>A target whose folder does not exist, and one whose S3 folder name is unset.\<close>

definition ex_rec_missing :: db_backup where
  "ex_rec_missing = ex_rec\<lparr>folder := ''/gone''\<rparr>"

definition ex_rec_unset :: db_backup where
  "ex_rec_unset = ex_rec\<lparr>s3_folder_name := None\<rparr>"

text \<open>The same world, except that the bucket does not exist for the service.\<close>

definition ex_env_no_bucket :: env where
  "ex_env_no_bucket = ex_env\<lparr>list_error := (\<lambda>c b p. Some (Exn ClientError
     ''An error occurred (NoSuchBucket) when calling the ListObjectsV2 operation: The specified bucket does not exist''))\<rparr>"

text \<open>
  Worlds in which the service fails: every upload is refused (boto3 reports it as
  \<open>S3UploadFailedError\<close>); the endpoint cannot be reached when deleting; the endpoint
  cannot be reached when uploading and every delete is refused.
\<close>

definition ex_env_denied :: env where
  "ex_env_denied = ex_env\<lparr>upload_error := (\<lambda>c f b k. Some (Exn S3UploadFailedError
     ''Failed to upload: An error occurred (AccessDenied) when calling the PutObject operation: Access Denied''))\<rparr>"

definition ex_env_unreachable :: env where
  "ex_env_unreachable = ex_env\<lparr>delete_error := (\<lambda>c b k. Some (Exn EndpointConnectionError
     ''Could not connect to the endpoint URL''))\<rparr>"

definition ex_env_flaky :: env where
  "ex_env_flaky = ex_env\<lparr>
     upload_error := (\<lambda>c f b k. Some (Exn EndpointConnectionError
       ''Could not connect to the endpoint URL'')),
     delete_error := (\<lambda>c b k. Some (Exn ClientError
       ''An error occurred (AccessDenied) when calling the DeleteObject operation: Access Denied''))\<rparr>"

text \<open>A bucket with 1001 objects below \<open>db/\<close>, one more than a page.\<close>

definition big_keys :: "string list" where
  "big_keys = map (\<lambda>i. ''db/'' @ replicate (Suc i) CHR ''a'') [0..<1001]"

definition big_state :: state where
  "big_state = \<lparr>buckets = (\<lambda>b. if b = ''bk'' then big_keys else []), trace = []\<rparr>"

section \<open>Splitting keys\<close>

lemma split_not_Nil: "split sep s \<noteq> []"
  by (induction s) auto

lemma length_split: "length (split sep s) = Suc (length (filter (\<lambda>c. c = sep) s))"
proof (induction s)
  case Nil
  then show ?case by simp
next
  case (Cons c cs)
  have "length (tl (split sep cs)) = length (split sep cs) - 1" by simp
  with Cons show ?case by simp
qed

lemma split_no_sep: "sep \<notin> set s \<Longrightarrow> split sep s = [s]"
  by (induction s) auto

lemma tl_split_sep:
  assumes "sep \<in> set s"
  shows "tl (split sep s) \<noteq> []"
proof -
  from assms have "filter (\<lambda>c. c = sep) s \<noteq> []"
    by (auto simp: filter_empty_conv)
  then have "2 \<le> length (split sep s)"
    by (cases "filter (\<lambda>c. c = sep) s") (auto simp: length_split)
  then show ?thesis by (cases "split sep s") auto
qed

lemma last_split_Cons:
  "last (split sep (c # cs)) =
     (if sep \<in> set cs \<or> c = sep then last (split sep cs) else c # cs)"
proof (cases "c = sep")
  case True
  then show ?thesis by (simp add: split_not_Nil)
next
  case False
  show ?thesis
  proof (cases "sep \<in> set cs")
    case True
    then have "tl (split sep cs) \<noteq> []" by (rule tl_split_sep)
    with False True show ?thesis by (simp add: last_tl)
  next
    case no: False
    with False show ?thesis by (simp add: split_no_sep)
  qed
qed

lemma last_split_append: "last (split sep (p @ sep # rest)) = last (split sep rest)"
proof (induction p)
  case Nil
  show ?case by (simp add: split_not_Nil)
next
  case (Cons c cs)
  have "last (split sep (c # (cs @ sep # rest))) = last (split sep (cs @ sep # rest))"
    by (subst last_split_Cons) simp
  with Cons show ?case by simp
qed

lemma s3_file_key:
  "s3_file \<lparr>Key = prefix @ CHR ''/'' # rest\<rparr> = last (split CHR ''/'' rest)"
  by (simp add: s3_file_def last_split_append)

text \<open>
  Claim C7, as the code has it. The name computed for a listed key \<open>prefix/rest\<close> is the
  part of \<open>rest\<close> after its last slash; it is \<open>rest\<close> itself when \<open>rest\<close> holds no slash.
\<close>

theorem s3_file_strips_prefix:
  "s3_file \<lparr>Key = prefix @ ''/'' @ rest\<rparr> = last (split CHR ''/'' rest)
   \<and> (CHR ''/'' \<notin> set rest \<longrightarrow> s3_file \<lparr>Key = prefix @ ''/'' @ rest\<rparr> = rest)"
  by (simp add: s3_file_key split_no_sep)

theorem s3_file_strips_prefix_witness:
  "CHR ''/'' \<notin> set ''a.sql'' \<and> s3_file \<lparr>Key = ''db'' @ ''/'' @ ''a.sql''\<rparr> = ''a.sql''"
  using s3_file_strips_prefix [of "''db''" "''a.sql''"] by simp

text \<open>
  Claim C7 as stated fails for a key below a nested folder: for \<open>db/sub/a.sql\<close> under the
  prefix \<open>db\<close> the computed name is \<open>a.sql\<close>, not \<open>sub/a.sql\<close>.
\<close>

theorem s3_file_nested_counterexample:
  "s3_file \<lparr>Key = ''db'' @ ''/'' @ ''sub/a.sql''\<rparr> \<noteq> ''sub/a.sql''"
  by (simp add: s3_file_def)

section \<open>Loops\<close>

lemma for_loop_append:
  "for_loop body (pre @ post) st =
     (case for_loop body pre st of
        (Inl e, st1) \<Rightarrow> (Inl e, st1)
      | (Inr u, st1) \<Rightarrow> for_loop body post st1)"
  by (induction pre arbitrary: st) (auto split: prod.splits sum.splits)

lemma schedule_backup_loop_Cons:
  "schedule_backup_loop ev st (r # rs) =
     (case schedule_backup_rec ev st r of
        (Inl e, st1) \<Rightarrow> (Inl e, st1)
      | (Inr u, st1) \<Rightarrow> schedule_backup_loop ev st1 rs)"
  unfolding schedule_backup_loop_def by simp

lemma schedule_backup_loop_Nil: "schedule_backup_loop ev st [] = (Inr (), st)"
  unfolding schedule_backup_loop_def by simp

lemma schedule_backup_loop_append:
  "schedule_backup_loop ev st (pre @ post) =
     (case schedule_backup_loop ev st pre of
        (Inl e, st1) \<Rightarrow> (Inl e, st1)
      | (Inr u, st1) \<Rightarrow> schedule_backup_loop ev st1 post)"
  unfolding schedule_backup_loop_def by (simp add: for_loop_append)

lemma upload_calls_append: "upload_calls (xs @ ys) = upload_calls xs @ upload_calls ys"
  by (induction xs rule: upload_calls.induct) simp_all

lemma delete_calls_append: "delete_calls (xs @ ys) = delete_calls xs @ delete_calls ys"
  by (induction xs rule: delete_calls.induct) simp_all

lemma for_loop_ok:
  assumes "\<And>x s. x \<in> set xs \<Longrightarrow> fst (body x s) = Inr ()"
  shows "fst (for_loop body xs st) = Inr ()"
  using assms
proof (induction xs arbitrary: st)
  case Nil
  show ?case by simp
next
  case (Cons x xs)
  have "fst (body x st) = Inr ()" using Cons.prems by simp
  then obtain st1 where b: "body x st = (Inr (), st1)" by (cases "body x st") auto
  have "fst (for_loop body xs st1) = Inr ()" using Cons by simp
  with b show ?case by simp
qed

lemma for_loop_invariant:
  assumes "\<And>x s. x \<in> set xs \<Longrightarrow> P s \<Longrightarrow> P (snd (body x s))" and "P st"
  shows "P (snd (for_loop body xs st))"
  using assms
proof (induction xs arbitrary: st)
  case Nil
  then show ?case by simp
next
  case (Cons x xs)
  have step: "P (snd (body x st))" using Cons.prems by simp
  show ?case
  proof (cases "body x st")
    case (Pair res st1)
    with step have p1: "P st1" by simp
    show ?thesis
    proof (cases res)
      case (Inl e)
      with Pair p1 show ?thesis by simp
    next
      case (Inr u)
      have "P (snd (for_loop body xs st1))" using Cons.IH [of st1] Cons.prems(1) p1 by simp
      with Pair Inr show ?thesis by simp
    qed
  qed
qed

lemma for_loop_fold:
  assumes "\<And>x s. x \<in> set xs \<Longrightarrow> fst (body x s) = Inr () \<Longrightarrow> h (snd (body x s)) = step x (h s)"
    and "fst (for_loop body xs st) = Inr ()"
  shows "h (snd (for_loop body xs st)) = fold step xs (h st)"
  using assms
proof (induction xs arbitrary: st)
  case Nil
  then show ?case by simp
next
  case (Cons x xs)
  show ?case
  proof (cases "body x st")
    case (Pair res st1)
    show ?thesis
    proof (cases res)
      case (Inl e)
      with Pair Cons.prems(2) show ?thesis by simp
    next
      case (Inr u)
      with Pair Cons.prems(2) have ok: "fst (for_loop body xs st1) = Inr ()" by simp
      from Pair Inr have "h st1 = step x (h st)" using Cons.prems(1) [of x st] by simp
      moreover have "h (snd (for_loop body xs st1)) = fold step xs (h st1)"
        using Cons.IH [of st1] Cons.prems(1) ok by simp
      ultimately show ?thesis using Pair Inr by simp
    qed
  qed
qed

lemma for_loop_each:
  assumes "\<And>x s. x \<in> set xs \<Longrightarrow> fst (body x s) = Inr () \<Longrightarrow> Q x (snd (body x s))"
    and "\<And>x y s. Q x s \<Longrightarrow> Q x (snd (body y s))"
    and "fst (for_loop body xs st) = Inr ()"
    and "x \<in> set xs"
  shows "Q x (snd (for_loop body xs st))"
  using assms
proof (induction xs arbitrary: st)
  case Nil
  then show ?case by simp
next
  case (Cons y ys)
  show ?case
  proof (cases "body y st")
    case (Pair res st1)
    show ?thesis
    proof (cases res)
      case (Inl e)
      with Pair Cons.prems(3) show ?thesis by simp
    next
      case (Inr u)
      with Pair Cons.prems(3) have ok: "fst (for_loop body ys st1) = Inr ()" by simp
      have res: "for_loop body (y # ys) st = for_loop body ys st1" using Pair Inr by simp
      show ?thesis
      proof (cases "x = y")
        case True
        have "Q x st1" using Cons.prems(1) [of y st] Pair Inr True by simp
        then have "Q x (snd (for_loop body ys st1))"
          using for_loop_invariant [of ys "Q x" body st1] Cons.prems(2) by blast
        with res show ?thesis by simp
      next
        case False
        with Cons.prems(4) have "x \<in> set ys" by simp
        then have "Q x (snd (for_loop body ys st1))"
          using Cons.IH [of st1] Cons.prems(1,2) ok by simp
        with res show ?thesis by simp
      qed
    qed
  qed
qed

section \<open>One pass of each loop body\<close>

lemma isinstance_UserError [simp]: "isinstance (Exn UserError m) UserError"
  by (simp add: isinstance_def)

lemma upload_one_result:
  assumes "client_error ev (s3_access_key r) (s3_secret_key r) (s3_region r) = None"
  shows "upload_one ev r f n st =
    (let c = S3Client (s3_access_key r) (s3_secret_key r) (s3_region r);
         p = path_join (folder r) n; b = s3_bucket_name r; k = f @ ''/'' @ n;
         calls = [Boto3Client (s3_access_key r) (s3_secret_key r) (s3_region r), UploadFile c p b k]
     in case upload_error ev c p b k of
          None \<Rightarrow>
            (Inr (), \<lparr>buckets = (buckets st)(b := put_key k (buckets st b)),
                      trace = trace st @ calls @
                        [LogInfo (''Successfully uploaded '' @ p @ '' to S3 bucket '' @ b),
                         LogInfo (''Uploaded file to S3: '' @ k)]\<rparr>)
        | Some e \<Rightarrow>
            (if isinstance e BotoCoreError \<or> isinstance e NoCredentialsError
             then (Inr (), st\<lparr>trace := trace st @ calls @
                        [LogError (''Failed to upload backup to S3: '' @ str e),
                         LogError (''Failed to upload file '' @ n @ '' to S3: ''
                                    @ ''Failed to upload backup to S3: '' @ str e)]\<rparr>)
             else if isinstance e UserError
             then (Inr (), st\<lparr>trace := trace st @ calls @
                        [LogError (''Failed to upload file '' @ n @ '' to S3: '' @ str e)]\<rparr>)
             else (Inl e, st\<lparr>trace := trace st @ calls\<rparr>)))"
  using assms
  by (simp add: upload_one_def upload_to_s3_def upload_to_s3_try_def boto3_client_def
                upload_file_def emit_def log_info_def log_error_def Let_def
           split: option.splits)

lemma delete_one_result:
  "delete_one ev r c f n st =
    (let b = s3_bucket_name r; k = f @ ''/'' @ n
     in case delete_error ev c b k of
          None \<Rightarrow>
            (Inr (), \<lparr>buckets = (buckets st)(b := removeAll k (buckets st b)),
                      trace = trace st @ [DeleteObject c b k, LogInfo (''Deleted file from S3: '' @ k)]\<rparr>)
        | Some e \<Rightarrow>
            (if isinstance e ClientError
             then (Inr (), st\<lparr>trace := trace st @
                        [DeleteObject c b k,
                         LogError (''Failed to delete file '' @ k @ '' from S3: '' @ str e)]\<rparr>)
             else (Inl e, st\<lparr>trace := trace st @ [DeleteObject c b k]\<rparr>)))"
  by (simp add: delete_one_def delete_object_def emit_def log_info_def log_error_def Let_def
           split: option.splits)

section \<open>Targets that stop early\<close>

lemma schedule_backup_rec_unset:
  "s3_write r \<Longrightarrow> s3_folder_name r = None \<Longrightarrow>
   schedule_backup_rec ev st r = (Inl (Exn AttributeError ''bool object has no attribute strip''), st)"
  by (simp add: schedule_backup_rec_def)

text \<open>
  Claim C9. An enabled target whose \<open>s3_folder_name\<close> is unset makes the entry point
  raise: whatever the targets before it did, the run ends in an exception; and when
  the inherited method and the earlier targets return normally, the exception is the
  \<open>AttributeError\<close> of \<open>strip\<close>, raised in the state the earlier targets left (no scan and
  no remote call for this target), and no later target is processed.
\<close>

theorem unset_folder_name_raises:
  assumes "s3_write r" and "s3_folder_name r = None"
  shows "(\<exists>e. fst (schedule_backup super ev st (pre @ r # post)) = Inl e)
       \<and> (\<forall>st0 st1. super st = (Inr (), st0) \<and> schedule_backup_loop ev st0 pre = (Inr (), st1)
            \<longrightarrow> schedule_backup super ev st (pre @ r # post)
                = (Inl (Exn AttributeError ''bool object has no attribute strip''), st1))"
  using assms
  by (auto simp: schedule_backup_def schedule_backup_loop_append schedule_backup_loop_Cons
                 schedule_backup_rec_unset
           split: prod.splits sum.splits)

theorem unset_folder_name_raises_witness:
  "s3_write ex_rec_unset \<and> s3_folder_name ex_rec_unset = None
   \<and> schedule_backup (\<lambda>st. (Inr (), st)) ex_env ex_state ([] @ ex_rec_unset # [ex_rec])
       = (Inl (Exn AttributeError ''bool object has no attribute strip''), ex_state)"
proof -
  have h1: "s3_write ex_rec_unset" by (simp add: ex_rec_unset_def ex_rec_def)
  have h2: "s3_folder_name ex_rec_unset = None" by (simp add: ex_rec_unset_def)
  from unset_folder_name_raises [OF h1 h2, where super = "\<lambda>st. (Inr (), st)" and st = ex_state
         and pre = "[]" and ev = ex_env and post = "[ex_rec]"]
  have "schedule_backup (\<lambda>st. (Inr (), st)) ex_env ex_state ([] @ ex_rec_unset # [ex_rec])
       = (Inl (Exn AttributeError ''bool object has no attribute strip''), ex_state)"
    by (simp add: schedule_backup_loop_Nil)
  with h1 h2 show ?thesis by simp
qed

text \<open>
  Claim C5. When \<open>os.listdir\<close> fails for an enabled target, its pass ends normally
  after the scan and one logged error: the trace gains no boto3 call, the buckets
  are untouched, and the loop goes on with the remaining targets.
\<close>

theorem local_scan_failure_skips_target:
  assumes "s3_write r" and "s3_folder_name r = Some name" and "listdir ev (folder r) = Inl e"
  shows "schedule_backup_rec ev st r =
           (Inr (), st\<lparr>trace := trace st @
              [ListDir (folder r),
               LogError (if isinstance e FileNotFoundError
                         then ''Folder not found: '' @ folder r
                         else ''Error accessing folder '' @ folder r @ '': '' @ str e)]\<rparr>)
       \<and> schedule_backup_loop ev st (r # rs) =
           schedule_backup_loop ev (snd (schedule_backup_rec ev st r)) rs"
  using assms
  by (simp add: schedule_backup_loop_Cons schedule_backup_rec_def local_files_def
                log_error_def emit_def Let_def)

theorem local_scan_failure_skips_target_witness:
  "s3_write ex_rec_missing \<and> s3_folder_name ex_rec_missing = Some '' db ''
   \<and> listdir ex_env (folder ex_rec_missing) = Inl (Exn FileNotFoundError ''No such file or directory'')
   \<and> schedule_backup_rec ex_env ex_state ex_rec_missing =
       (Inr (), ex_state\<lparr>trace := [ListDir ''/gone'', LogError ''Folder not found: /gone'']\<rparr>)"
proof -
  have h1: "s3_write ex_rec_missing" by (simp add: ex_rec_missing_def ex_rec_def)
  have h2: "s3_folder_name ex_rec_missing = Some '' db ''"
    by (simp add: ex_rec_missing_def ex_rec_def)
  have h3: "listdir ex_env (folder ex_rec_missing)
              = Inl (Exn FileNotFoundError ''No such file or directory'')"
    by (simp add: ex_rec_missing_def ex_rec_def ex_env_def)
  have "folder ex_rec_missing = ''/gone''" by (simp add: ex_rec_missing_def)
  moreover have "trace ex_state = []" by (simp add: ex_state_def)
  ultimately have "schedule_backup_rec ex_env ex_state ex_rec_missing =
       (Inr (), ex_state\<lparr>trace := [ListDir ''/gone'', LogError ''Folder not found: /gone'']\<rparr>)"
    using local_scan_failure_skips_target [OF h1 h2 h3, where st = ex_state and rs = "[]"]
    by (simp add: isinstance_def)
  with h1 h2 h3 show ?thesis by simp
qed

section \<open>The remote listing\<close>

lemma list_s3_objects_result:
  assumes "list_error ev c bucket (Some (prefix @ ''/'')) = None"
  shows "list_s3_objects ev st c bucket prefix =
           (Inr (map (\<lambda>k. \<lparr>Key = k\<rparr>)
                  (take (max_keys ev)
                     (filter (\<lambda>k. startswith k (prefix @ ''/'')) (buckets st bucket)))),
            st\<lparr>trace := trace st @ [ListObjectsV2 c bucket (Some (prefix @ ''/''))]\<rparr>)"
  using assms
  by (simp add: list_s3_objects_def list_objects_v2_def matching_keys_def emit_def Let_def)

lemma list_s3_objects_error:
  assumes "list_error ev c bucket (Some (prefix @ ''/'')) = Some e"
  shows "list_s3_objects ev st c bucket prefix =
           (Inl e, st\<lparr>trace := trace st @ [ListObjectsV2 c bucket (Some (prefix @ ''/''))]\<rparr>)"
  using assms
  by (simp add: list_s3_objects_def list_objects_v2_def matching_keys_def emit_def Let_def)

text \<open>
  Claim C4, as the code has it. \<open>list_s3_objects\<close> makes one \<open>list_objects_v2\<close> request
  and returns its \<open>Contents\<close>: the first \<open>max_keys\<close> objects whose key starts with
  \<open>prefix/\<close>. The result is the empty list, not an error, when no key matches, and it
  is the complete listing when at most \<open>max_keys\<close> keys match.
\<close>

theorem list_s3_objects_first_page:
  assumes "list_error ev c bucket (Some (prefix @ ''/'')) = None"
  shows "list_s3_objects ev st c bucket prefix =
           (Inr (map (\<lambda>k. \<lparr>Key = k\<rparr>)
                  (take (max_keys ev)
                     (filter (\<lambda>k. startswith k (prefix @ ''/'')) (buckets st bucket)))),
            st\<lparr>trace := trace st @ [ListObjectsV2 c bucket (Some (prefix @ ''/''))]\<rparr>)
       \<and> (filter (\<lambda>k. startswith k (prefix @ ''/'')) (buckets st bucket) = []
            \<longrightarrow> fst (list_s3_objects ev st c bucket prefix) = Inr [])
       \<and> (length (filter (\<lambda>k. startswith k (prefix @ ''/'')) (buckets st bucket)) \<le> max_keys ev
            \<longrightarrow> fst (list_s3_objects ev st c bucket prefix) =
                  Inr (map (\<lambda>k. \<lparr>Key = k\<rparr>)
                        (filter (\<lambda>k. startswith k (prefix @ ''/'')) (buckets st bucket))))"
  using assms by (simp add: list_s3_objects_result)

theorem list_s3_objects_first_page_witness:
  "list_error ex_env (S3Client ''AK'' ''SK'' ''eu'') ''bk'' (Some (''db'' @ ''/'')) = None
   \<and> length (filter (\<lambda>k. startswith k (''db'' @ ''/'')) (buckets ex_state ''bk'')) \<le> max_keys ex_env
   \<and> fst (list_s3_objects ex_env ex_state (S3Client ''AK'' ''SK'' ''eu'') ''bk'' ''db'') =
       Inr [\<lparr>Key = ''db/b.sql''\<rparr>, \<lparr>Key = ''db/c.sql''\<rparr>]"
proof -
  have h: "list_error ex_env (S3Client ''AK'' ''SK'' ''eu'') ''bk'' (Some (''db'' @ ''/'')) = None"
    by (simp add: ex_env_def)
  have f: "filter (\<lambda>k. startswith k (''db'' @ ''/'')) (buckets ex_state ''bk'') = [''db/b.sql'', ''db/c.sql'']"
    by (simp add: ex_state_def startswith_def)
  have m: "max_keys ex_env = 1000" by (simp add: ex_env_def)
  from list_s3_objects_first_page [OF h, where st = ex_state] f m
  have "fst (list_s3_objects ex_env ex_state (S3Client ''AK'' ''SK'' ''eu'') ''bk'' ''db'') =
       Inr [\<lparr>Key = ''db/b.sql''\<rparr>, \<lparr>Key = ''db/c.sql''\<rparr>]"
    by simp
  with h f m show ?thesis by simp
qed

text \<open>
  Claim C4 as stated fails when the service paginates: with 1001 matching objects and a
  page of 1000, the method returns 1000 objects.
\<close>

lemma big_keys_match: "filter (\<lambda>k. startswith k ''db/'') big_keys = big_keys"
  by (simp add: big_keys_def startswith_def filter_map o_def)

lemma length_big_keys: "length big_keys = 1001"
  by (simp add: big_keys_def)

theorem list_s3_objects_truncated_counterexample:
  "fst (list_s3_objects ex_env big_state (S3Client ''AK'' ''SK'' ''eu'') ''bk'' ''db'')
     = Inr (map (\<lambda>k. \<lparr>Key = k\<rparr>) (take 1000 big_keys))
   \<and> length (map (\<lambda>k. \<lparr>Key = k\<rparr>) (take 1000 big_keys)) = 1000
   \<and> length (filter (\<lambda>k. startswith k ''db/'') (buckets big_state ''bk'')) = 1001"
proof -
  have h: "list_error ex_env (S3Client ''AK'' ''SK'' ''eu'') ''bk'' (Some (''db'' @ ''/'')) = None"
    by (simp add: ex_env_def)
  have b: "buckets big_state ''bk'' = big_keys" by (simp add: big_state_def)
  have m: "max_keys ex_env = 1000" by (simp add: ex_env_def)
  have "fst (list_s3_objects ex_env big_state (S3Client ''AK'' ''SK'' ''eu'') ''bk'' ''db'')
     = Inr (map (\<lambda>k. \<lparr>Key = k\<rparr>) (take 1000 big_keys))"
    using list_s3_objects_result [OF h, where st = big_state] b m big_keys_match by simp
  then show ?thesis using b big_keys_match length_big_keys by simp
qed

section \<open>The connection test\<close>

lemma test_s3_connection_try_result:
  "test_s3_connection_try ev st r =
     (case client_error ev (s3_access_key r) (s3_secret_key r) (s3_region r) of
        Some e \<Rightarrow> (Inl e, st\<lparr>trace := trace st @
                     [Boto3Client (s3_access_key r) (s3_secret_key r) (s3_region r)]\<rparr>)
      | None \<Rightarrow>
          (case list_error ev (S3Client (s3_access_key r) (s3_secret_key r) (s3_region r))
                  (s3_bucket_name r) None of
             Some e \<Rightarrow> Inl e | None \<Rightarrow> Inr (),
           st\<lparr>trace := trace st @
                [Boto3Client (s3_access_key r) (s3_secret_key r) (s3_region r),
                 ListObjectsV2 (S3Client (s3_access_key r) (s3_secret_key r) (s3_region r))
                   (s3_bucket_name r) None]\<rparr>))"
  by (simp add: test_s3_connection_try_def get_s3_client_def boto3_client_def
                list_objects_v2_def emit_def Let_def split: option.splits)

text \<open>
  Claim C8. For a single record the connection test returns a notification, never an
  exception. It is the success notification exactly when neither \<open>boto3.client\<close> nor
  the one \<open>list_objects_v2\<close> call on the bucket raises; otherwise its message is
  \<open>str(err)\<close> for the error raised (so non-empty whenever that string is) and its type
  is \<open>danger\<close>. The buckets are left as they were: the trace gains the client
  construction and at most the one listing call.
\<close>

theorem connection_test_outcome:
  "action_test_s3_connection ev st [r] =
     (Inr (case connection_error ev r of
             None \<Rightarrow> display_notification ''Connection Test Succeeded!''
                       ''Everything seems properly set up!'' ''success''
           | Some err \<Rightarrow> display_notification ''Connection Test Failed!'' (str err) ''danger''),
      st\<lparr>trace := trace st @
            Boto3Client (s3_access_key r) (s3_secret_key r) (s3_region r) #
            (if client_error ev (s3_access_key r) (s3_secret_key r) (s3_region r) = None
             then [ListObjectsV2 (S3Client (s3_access_key r) (s3_secret_key r) (s3_region r))
                     (s3_bucket_name r) None]
             else [])\<rparr>)
   \<and> ((connection_error ev r = None) =
        (client_error ev (s3_access_key r) (s3_secret_key r) (s3_region r) = None
         \<and> list_error ev (S3Client (s3_access_key r) (s3_secret_key r) (s3_region r))
              (s3_bucket_name r) None = None))
   \<and> (\<forall>a. fst (action_test_s3_connection ev st [r]) = Inr a \<longrightarrow>
         (msg_type (params a) = ''success'') = (connection_error ev r = None))
   \<and> (\<forall>a err. fst (action_test_s3_connection ev st [r]) = Inr a \<and> connection_error ev r = Some err
         \<longrightarrow> message (params a) = str err \<and> msg_type (params a) = ''danger''
             \<and> (str err \<noteq> [] \<longrightarrow> message (params a) \<noteq> []))
   \<and> buckets (snd (action_test_s3_connection ev st [r])) = buckets st"
  by (auto simp: action_test_s3_connection_def ensure_one_def test_s3_connection_try_result
                connection_error_def display_notification_def
           split: option.splits)

theorem connection_test_outcome_witness:
  "connection_error ex_env_no_bucket ex_rec
     = Some (Exn ClientError
         ''An error occurred (NoSuchBucket) when calling the ListObjectsV2 operation: The specified bucket does not exist'')
   \<and> fst (action_test_s3_connection ex_env_no_bucket ex_state [ex_rec]) =
       Inr (display_notification ''Connection Test Failed!''
         ''An error occurred (NoSuchBucket) when calling the ListObjectsV2 operation: The specified bucket does not exist''
         ''danger'')
   \<and> connection_error ex_env ex_rec = None
   \<and> fst (action_test_s3_connection ex_env ex_state [ex_rec]) =
       Inr (display_notification ''Connection Test Succeeded!''
         ''Everything seems properly set up!'' ''success'')"
proof -
  have e1: "connection_error ex_env_no_bucket ex_rec
     = Some (Exn ClientError
         ''An error occurred (NoSuchBucket) when calling the ListObjectsV2 operation: The specified bucket does not exist'')"
    by (simp add: connection_error_def ex_env_no_bucket_def ex_env_def ex_rec_def)
  have e2: "connection_error ex_env ex_rec = None"
    by (simp add: connection_error_def ex_env_def ex_rec_def)
  from connection_test_outcome [of ex_env_no_bucket ex_state ex_rec] e1
  have r1: "fst (action_test_s3_connection ex_env_no_bucket ex_state [ex_rec]) =
       Inr (display_notification ''Connection Test Failed!''
         ''An error occurred (NoSuchBucket) when calling the ListObjectsV2 operation: The specified bucket does not exist''
         ''danger'')"
    by simp
  from connection_test_outcome [of ex_env ex_state ex_rec] e2
  have r2: "fst (action_test_s3_connection ex_env ex_state [ex_rec]) =
       Inr (display_notification ''Connection Test Succeeded!''
         ''Everything seems properly set up!'' ''success'')"
    by simp
  from e1 e2 r1 r2 show ?thesis by simp
qed

section \<open>The plan and the calls of a cycle\<close>

lemma fold_snoc: "fold (\<lambda>x l. l @ [g x]) xs l0 = l0 @ map g xs"
  by (induction xs arbitrary: l0) simp_all

lemma set_set_iter [simp]: "set (set_iter rank xs) = set xs"
  by (simp add: set_iter_def)

lemma set_iter_Nil [simp]: "set_iter rank [] = []"
  by (simp add: set_iter_def)

lemma set_files_to_upload: "set (files_to_upload local remote) = set local - set remote"
  by (auto simp: files_to_upload_def set_difference_def)

lemma set_files_to_delete: "set (files_to_delete local remote) = set remote - set local"
  by (auto simp: files_to_delete_def set_difference_def)

lemma upload_one_calls:
  assumes "client_error ev (s3_access_key r) (s3_secret_key r) (s3_region r) = None"
  shows "upload_calls (trace (snd (upload_one ev r f n s))) =
           upload_calls (trace s) @ [(s3_bucket_name r, f @ ''/'' @ n)]"
    and "delete_calls (trace (snd (upload_one ev r f n s))) = delete_calls (trace s)"
  by (simp_all add: upload_one_result [OF assms] Let_def upload_calls_append delete_calls_append
               split: option.splits)

lemma delete_one_calls:
  shows "delete_calls (trace (snd (delete_one ev r c f n s))) =
           delete_calls (trace s) @ [(s3_bucket_name r, f @ ''/'' @ n)]"
    and "upload_calls (trace (snd (delete_one ev r c f n s))) = upload_calls (trace s)"
  by (simp_all add: delete_one_result Let_def upload_calls_append delete_calls_append
               split: option.splits)

lemma upload_loop_calls:
  assumes cl: "client_error ev (s3_access_key r) (s3_secret_key r) (s3_region r) = None"
  shows "fst (for_loop (upload_one ev r f) xs st) = Inr () \<Longrightarrow>
         upload_calls (trace (snd (for_loop (upload_one ev r f) xs st))) =
           upload_calls (trace st) @ map (\<lambda>n. (s3_bucket_name r, f @ ''/'' @ n)) xs"
    and "delete_calls (trace (snd (for_loop (upload_one ev r f) xs st))) = delete_calls (trace st)"
proof -
  assume ok: "fst (for_loop (upload_one ev r f) xs st) = Inr ()"
  have "upload_calls (trace (snd (for_loop (upload_one ev r f) xs st))) =
          fold (\<lambda>n l. l @ [(s3_bucket_name r, f @ ''/'' @ n)]) xs (upload_calls (trace st))"
    by (rule for_loop_fold [where h = "\<lambda>s. upload_calls (trace s)", OF _ ok])
       (simp add: upload_one_calls [OF cl])
  then show "upload_calls (trace (snd (for_loop (upload_one ev r f) xs st))) =
           upload_calls (trace st) @ map (\<lambda>n. (s3_bucket_name r, f @ ''/'' @ n)) xs"
    by (simp add: fold_snoc)
next
  show "delete_calls (trace (snd (for_loop (upload_one ev r f) xs st))) = delete_calls (trace st)"
    by (rule for_loop_invariant [where P = "\<lambda>s. delete_calls (trace s) = delete_calls (trace st)"])
       (simp_all add: upload_one_calls [OF cl])
qed

lemma delete_loop_calls:
  shows "fst (for_loop (delete_one ev r c f) xs st) = Inr () \<Longrightarrow>
         delete_calls (trace (snd (for_loop (delete_one ev r c f) xs st))) =
           delete_calls (trace st) @ map (\<lambda>n. (s3_bucket_name r, f @ ''/'' @ n)) xs"
    and "upload_calls (trace (snd (for_loop (delete_one ev r c f) xs st))) = upload_calls (trace st)"
proof -
  assume ok: "fst (for_loop (delete_one ev r c f) xs st) = Inr ()"
  have "delete_calls (trace (snd (for_loop (delete_one ev r c f) xs st))) =
          fold (\<lambda>n l. l @ [(s3_bucket_name r, f @ ''/'' @ n)]) xs (delete_calls (trace st))"
    by (rule for_loop_fold [where h = "\<lambda>s. delete_calls (trace s)", OF _ ok])
       (simp add: delete_one_calls)
  then show "delete_calls (trace (snd (for_loop (delete_one ev r c f) xs st))) =
           delete_calls (trace st) @ map (\<lambda>n. (s3_bucket_name r, f @ ''/'' @ n)) xs"
    by (simp add: fold_snoc)
next
  show "upload_calls (trace (snd (for_loop (delete_one ev r c f) xs st))) = upload_calls (trace st)"
    by (rule for_loop_invariant [where P = "\<lambda>s. upload_calls (trace s) = upload_calls (trace st)"])
       (simp_all add: delete_one_calls)
qed

text \<open>reconcile: split into its two loops\<close>

lemma reconcile_Inr:
  assumes "fst (reconcile ev st r c f local objs) = Inr ()"
  obtains st1 where
    "for_loop (upload_one ev r f) (set_iter (set_order ev) (files_to_upload local (s3_files objs))) st
       = (Inr (), st1)"
    and "reconcile ev st r c f local objs =
       for_loop (delete_one ev r c f) (set_iter (set_order ev) (files_to_delete local (s3_files objs))) st1"
  using assms
  by (auto simp: reconcile_def Let_def split: prod.splits sum.splits)

lemma reconcile_calls:
  assumes cl: "client_error ev (s3_access_key r) (s3_secret_key r) (s3_region r) = None"
    and ok: "fst (reconcile ev st r c f local objs) = Inr ()"
  shows "upload_calls (trace (snd (reconcile ev st r c f local objs))) =
           upload_calls (trace st) @ map (\<lambda>n. (s3_bucket_name r, f @ ''/'' @ n))
             (set_iter (set_order ev) (files_to_upload local (s3_files objs)))"
    and "delete_calls (trace (snd (reconcile ev st r c f local objs))) =
           delete_calls (trace st) @ map (\<lambda>n. (s3_bucket_name r, f @ ''/'' @ n))
             (set_iter (set_order ev) (files_to_delete local (s3_files objs)))"
proof -
  from ok obtain st1 where
    up: "for_loop (upload_one ev r f) (set_iter (set_order ev) (files_to_upload local (s3_files objs))) st
       = (Inr (), st1)"
    and rc: "reconcile ev st r c f local objs =
       for_loop (delete_one ev r c f) (set_iter (set_order ev) (files_to_delete local (s3_files objs))) st1"
    by (rule reconcile_Inr)
  from up have u1: "upload_calls (trace st1) = upload_calls (trace st) @
      map (\<lambda>n. (s3_bucket_name r, f @ ''/'' @ n))
        (set_iter (set_order ev) (files_to_upload local (s3_files objs)))"
    using upload_loop_calls(1) [OF cl, where f = f and st = st
            and xs = "set_iter (set_order ev) (files_to_upload local (s3_files objs))"]
    by simp
  from up have d1: "delete_calls (trace st1) = delete_calls (trace st)"
    using upload_loop_calls(2) [OF cl, where f = f and st = st
            and xs = "set_iter (set_order ev) (files_to_upload local (s3_files objs))"]
    by simp
  from ok rc have ok2: "fst (for_loop (delete_one ev r c f)
       (set_iter (set_order ev) (files_to_delete local (s3_files objs))) st1) = Inr ()" by simp
  show "upload_calls (trace (snd (reconcile ev st r c f local objs))) =
           upload_calls (trace st) @ map (\<lambda>n. (s3_bucket_name r, f @ ''/'' @ n))
             (set_iter (set_order ev) (files_to_upload local (s3_files objs)))"
    using rc u1 delete_loop_calls(2) [where ev = ev and r = r and c = c and f = f and st = st1] by simp
  show "delete_calls (trace (snd (reconcile ev st r c f local objs))) =
           delete_calls (trace st) @ map (\<lambda>n. (s3_bucket_name r, f @ ''/'' @ n))
             (set_iter (set_order ev) (files_to_delete local (s3_files objs)))"
    using rc d1 delete_loop_calls(1) [OF ok2] by simp
qed

lemma local_files_Inr:
  assumes "local_files ev st p = (Inr local, st1)"
  shows "\<exists>names. listdir ev p = Inr names
           \<and> local = remdups (map basename (filter (\<lambda>f. isfile ev (path_join p f)) names))"
    and "st1 = st\<lparr>trace := trace st @ [ListDir p]\<rparr>"
  using assms
  by (auto simp: local_files_def emit_def Let_def split: sum.splits)

lemma remote_listing_Inr:
  assumes "remote_listing ev st r f = (Inr (c, objs), st2)"
  shows "client_error ev (s3_access_key r) (s3_secret_key r) (s3_region r) = None"
    and "c = S3Client (s3_access_key r) (s3_secret_key r) (s3_region r)"
    and "list_error ev c (s3_bucket_name r) (Some (f @ ''/'')) = None"
    and "objs = map (\<lambda>k. \<lparr>Key = k\<rparr>) (take (max_keys ev)
                  (filter (\<lambda>k. startswith k (f @ ''/'')) (buckets st (s3_bucket_name r))))"
    and "st2 = st\<lparr>trace := trace st @
            [Boto3Client (s3_access_key r) (s3_secret_key r) (s3_region r),
             ListObjectsV2 c (s3_bucket_name r) (Some (f @ ''/''))]\<rparr>"
proof -
  show cl: "client_error ev (s3_access_key r) (s3_secret_key r) (s3_region r) = None"
    using assms
    by (auto simp: remote_listing_def get_s3_client_def boto3_client_def Let_def
             split: option.splits)
  then have g: "get_s3_client ev st (s3_access_key r) (s3_secret_key r) (s3_region r) =
      (Inr (S3Client (s3_access_key r) (s3_secret_key r) (s3_region r)),
       st\<lparr>trace := trace st @ [Boto3Client (s3_access_key r) (s3_secret_key r) (s3_region r)]\<rparr>)"
    by (simp add: get_s3_client_def boto3_client_def emit_def Let_def)
  let ?c = "S3Client (s3_access_key r) (s3_secret_key r) (s3_region r)"
  let ?st1 = "st\<lparr>trace := trace st @ [Boto3Client (s3_access_key r) (s3_secret_key r) (s3_region r)]\<rparr>"
  from assms g have l: "list_s3_objects ev ?st1 ?c (s3_bucket_name r) f = (Inr objs, st2)" and c: "c = ?c"
    by (auto simp: remote_listing_def split: prod.splits sum.splits)
  show "c = ?c" by (rule c)
  show le: "list_error ev c (s3_bucket_name r) (Some (f @ ''/'')) = None"
  proof (cases "list_error ev ?c (s3_bucket_name r) (Some (f @ ''/''))")
    case None
    with c show ?thesis by simp
  next
    case (Some e)
    from list_s3_objects_error [OF Some, of ?st1] l show ?thesis by simp
  qed
  from le c have le': "list_error ev ?c (s3_bucket_name r) (Some (f @ ''/'')) = None" by simp
  from list_s3_objects_result [OF le', of ?st1] l
  show "objs = map (\<lambda>k. \<lparr>Key = k\<rparr>) (take (max_keys ev)
                  (filter (\<lambda>k. startswith k (f @ ''/'')) (buckets st (s3_bucket_name r))))"
    by simp
  from list_s3_objects_result [OF le', of ?st1] l c
  show "st2 = st\<lparr>trace := trace st @
            [Boto3Client (s3_access_key r) (s3_secret_key r) (s3_region r),
             ListObjectsV2 c (s3_bucket_name r) (Some (f @ ''/''))]\<rparr>"
    by simp
qed

lemma schedule_backup_rec_reconcile:
  assumes "s3_write r" and "s3_folder_name r = Some name"
    and "local_files ev st (folder r) = (Inr local, st1)"
    and "remote_listing ev st1 r (strip name) = (Inr (c, objs), st2)"
  shows "schedule_backup_rec ev st r = reconcile ev st2 r c (strip name) local objs"
  using assms by (simp add: schedule_backup_rec_def Let_def)

lemma reconcile_in_sync:
  assumes "set local = set (s3_files objs)"
  shows "reconcile ev st r c f local objs = (Inr (), st)"
proof -
  from assms have "files_to_upload local (s3_files objs) = []"
    and "files_to_delete local (s3_files objs) = []"
    by (simp_all add: files_to_upload_def files_to_delete_def set_difference_def)
  then show ?thesis by (simp add: reconcile_def)
qed

lemma scan_and_listing_trace:
  assumes "local_files ev st p = (Inr local, st1)"
    and "remote_listing ev st1 r f = (Inr (c, objs), st2)"
  shows "upload_calls (trace st2) = upload_calls (trace st)"
    and "delete_calls (trace st2) = delete_calls (trace st)"
    and "buckets st2 = buckets st"
  using local_files_Inr(2) [OF assms(1)] remote_listing_Inr(5) [OF assms(2)]
  by (simp_all add: upload_calls_append delete_calls_append)

text \<open>
  Claim C1. For an enabled target whose scan and listing succeed, the cycle is
  \<open>reconcile\<close> on the two name sets: the names to upload are the local names that are
  not remote names, the names to delete the remote names that are not local names; a
  cycle that returns normally has made exactly one \<open>upload_file\<close> call per name to
  upload and one \<open>delete_object\<close> call per name to delete; and when the two sets are
  equal the cycle ends right after the listing, with no upload or delete call and the
  buckets unchanged.
\<close>

theorem plan_is_set_difference:
  assumes "s3_write r" and "s3_folder_name r = Some name"
    and "local_files ev st (folder r) = (Inr local, st1)"
    and "remote_listing ev st1 r (strip name) = (Inr (c, s3_objects), st2)"
  shows "schedule_backup_rec ev st r = reconcile ev st2 r c (strip name) local s3_objects
    \<and> set (files_to_upload local (s3_files s3_objects)) = set local - set (s3_files s3_objects)
    \<and> set (files_to_delete local (s3_files s3_objects)) = set (s3_files s3_objects) - set local
    \<and> (fst (schedule_backup_rec ev st r) = Inr () \<longrightarrow>
          upload_calls (trace (snd (schedule_backup_rec ev st r))) =
            upload_calls (trace st) @ map (\<lambda>n. (s3_bucket_name r, strip name @ ''/'' @ n))
              (set_iter (set_order ev) (files_to_upload local (s3_files s3_objects)))
        \<and> delete_calls (trace (snd (schedule_backup_rec ev st r))) =
            delete_calls (trace st) @ map (\<lambda>n. (s3_bucket_name r, strip name @ ''/'' @ n))
              (set_iter (set_order ev) (files_to_delete local (s3_files s3_objects))))
    \<and> (set local = set (s3_files s3_objects) \<longrightarrow>
          schedule_backup_rec ev st r = (Inr (), st2)
        \<and> upload_calls (trace st2) = upload_calls (trace st)
        \<and> delete_calls (trace st2) = delete_calls (trace st)
        \<and> buckets st2 = buckets st)"
proof -
  have rc: "schedule_backup_rec ev st r = reconcile ev st2 r c (strip name) local s3_objects"
    using assms by (rule schedule_backup_rec_reconcile)
  have cl: "client_error ev (s3_access_key r) (s3_secret_key r) (s3_region r) = None"
    using assms(4) by (rule remote_listing_Inr(1))
  note tr = scan_and_listing_trace [OF assms(3,4)]
  have calls: "fst (schedule_backup_rec ev st r) = Inr () \<longrightarrow>
          upload_calls (trace (snd (schedule_backup_rec ev st r))) =
            upload_calls (trace st) @ map (\<lambda>n. (s3_bucket_name r, strip name @ ''/'' @ n))
              (set_iter (set_order ev) (files_to_upload local (s3_files s3_objects)))
        \<and> delete_calls (trace (snd (schedule_backup_rec ev st r))) =
            delete_calls (trace st) @ map (\<lambda>n. (s3_bucket_name r, strip name @ ''/'' @ n))
              (set_iter (set_order ev) (files_to_delete local (s3_files s3_objects)))"
    using reconcile_calls [OF cl, of st2 c "strip name" local s3_objects] rc tr by simp
  have sync: "set local = set (s3_files s3_objects) \<longrightarrow> schedule_backup_rec ev st r = (Inr (), st2)"
    using rc by (simp add: reconcile_in_sync)
  from rc calls sync tr show ?thesis
    by (simp add: set_files_to_upload set_files_to_delete)
qed

text \<open>The example world, evaluated.\<close>

lemma ex_strip: "strip '' db '' = ''db''"
  by (simp add: strip_def whitespace_def)

lemma ex_local_files:
  "local_files ex_env st ''/backups'' = (Inr [''a.sql'', ''b.sql''], st\<lparr>trace := trace st @ [ListDir ''/backups'']\<rparr>)"
  by (simp add: local_files_def ex_env_def emit_def path_join_def basename_def)

lemma ex_remote_listing:
  "remote_listing ex_env st ex_rec ''db'' =
     (Inr (S3Client ''AK'' ''SK'' ''eu'',
           map (\<lambda>k. \<lparr>Key = k\<rparr>) (take 1000 (filter (\<lambda>k. startswith k ''db/'') (buckets st ''bk'')))),
      st\<lparr>trace := trace st @ [Boto3Client ''AK'' ''SK'' ''eu'',
         ListObjectsV2 (S3Client ''AK'' ''SK'' ''eu'') ''bk'' (Some ''db/'')]\<rparr>)"
  by (simp add: remote_listing_def get_s3_client_def boto3_client_def list_s3_objects_def
        list_objects_v2_def matching_keys_def ex_env_def ex_rec_def emit_def Let_def)

lemma ex_s3_files: "s3_files [\<lparr>Key = ''db/b.sql''\<rparr>, \<lparr>Key = ''db/c.sql''\<rparr>] = [''b.sql'', ''c.sql'']"
  by (simp add: s3_files_def s3_file_def)

lemma ex_s3_files_synced: "s3_files [\<lparr>Key = ''db/a.sql''\<rparr>, \<lparr>Key = ''db/b.sql''\<rparr>] = [''a.sql'', ''b.sql'']"
  by (simp add: s3_files_def s3_file_def)

theorem plan_is_set_difference_witness:
  "s3_write ex_rec \<and> s3_folder_name ex_rec = Some '' db ''
   \<and> fst (local_files ex_env ex_state (folder ex_rec)) = Inr [''a.sql'', ''b.sql'']
   \<and> fst (remote_listing ex_env (snd (local_files ex_env ex_state (folder ex_rec))) ex_rec (strip '' db ''))
       = Inr (S3Client ''AK'' ''SK'' ''eu'', [\<lparr>Key = ''db/b.sql''\<rparr>, \<lparr>Key = ''db/c.sql''\<rparr>])
   \<and> set (files_to_upload [''a.sql'', ''b.sql''] (s3_files [\<lparr>Key = ''db/b.sql''\<rparr>, \<lparr>Key = ''db/c.sql''\<rparr>]))
       = {''a.sql''}
   \<and> set (files_to_delete [''a.sql'', ''b.sql''] (s3_files [\<lparr>Key = ''db/b.sql''\<rparr>, \<lparr>Key = ''db/c.sql''\<rparr>]))
       = {''c.sql''}
   \<and> fst (schedule_backup_rec ex_env ex_state ex_rec) = Inr ()
   \<and> upload_calls (trace (snd (schedule_backup_rec ex_env ex_state ex_rec))) = [(''bk'', ''db/a.sql'')]
   \<and> delete_calls (trace (snd (schedule_backup_rec ex_env ex_state ex_rec))) = [(''bk'', ''db/c.sql'')]
   \<and> set [''a.sql'', ''b.sql''] = set (s3_files [\<lparr>Key = ''db/a.sql''\<rparr>, \<lparr>Key = ''db/b.sql''\<rparr>])
   \<and> schedule_backup_rec ex_env ex_state_synced ex_rec =
       (Inr (), ex_state_synced\<lparr>trace := [ListDir ''/backups'', Boto3Client ''AK'' ''SK'' ''eu'',
          ListObjectsV2 (S3Client ''AK'' ''SK'' ''eu'') ''bk'' (Some ''db/'')]\<rparr>)"
proof -
  have h1: "s3_write ex_rec" and h2: "s3_folder_name ex_rec = Some '' db ''"
    and fo: "folder ex_rec = ''/backups''" and bk: "s3_bucket_name ex_rec = ''bk''"
    by (simp_all add: ex_rec_def)
  let ?st1 = "ex_state\<lparr>trace := trace ex_state @ [ListDir ''/backups'']\<rparr>"
  let ?objs = "[\<lparr>Key = ''db/b.sql''\<rparr>, \<lparr>Key = ''db/c.sql''\<rparr>]"
  let ?c = "S3Client ''AK'' ''SK'' ''eu''"
  let ?st2 = "?st1\<lparr>trace := trace ?st1 @ [Boto3Client ''AK'' ''SK'' ''eu'',
         ListObjectsV2 ?c ''bk'' (Some ''db/'')]\<rparr>"
  have h3: "local_files ex_env ex_state (folder ex_rec) = (Inr [''a.sql'', ''b.sql''], ?st1)"
    by (simp add: fo ex_local_files)
  have h4: "remote_listing ex_env ?st1 ex_rec (strip '' db '') = (Inr (?c, ?objs), ?st2)"
    by (simp add: ex_strip ex_remote_listing ex_state_def startswith_def)
  note a = plan_is_set_difference [OF h1 h2 h3 h4]
  have ok: "fst (schedule_backup_rec ex_env ex_state ex_rec) = Inr ()"
    by code_simp
  have up: "set_iter (set_order ex_env) (files_to_upload [''a.sql'', ''b.sql''] (s3_files ?objs)) = [''a.sql'']"
    by (simp add: ex_s3_files files_to_upload_def set_difference_def set_iter_def)
  have del: "set_iter (set_order ex_env) (files_to_delete [''a.sql'', ''b.sql''] (s3_files ?objs)) = [''c.sql'']"
    by (simp add: ex_s3_files files_to_delete_def set_difference_def set_iter_def)
  have tr0: "trace ex_state = []" by (simp add: ex_state_def)
  note a2 = a [THEN conjunct2, THEN conjunct1] a [THEN conjunct2, THEN conjunct2, THEN conjunct1]
  note a4 = a [THEN conjunct2, THEN conjunct2, THEN conjunct2, THEN conjunct1, rule_format, OF ok]
  from a4 up del have calls:
    "upload_calls (trace (snd (schedule_backup_rec ex_env ex_state ex_rec))) = [(''bk'', ''db/a.sql'')]
     \<and> delete_calls (trace (snd (schedule_backup_rec ex_env ex_state ex_rec))) = [(''bk'', ''db/c.sql'')]"
    by (simp add: bk ex_strip tr0)
  from a2 have sets: "set (files_to_upload [''a.sql'', ''b.sql''] (s3_files ?objs)) = {''a.sql''}
     \<and> set (files_to_delete [''a.sql'', ''b.sql''] (s3_files ?objs)) = {''c.sql''}"
    by (auto simp: ex_s3_files)
  let ?t1 = "ex_state_synced\<lparr>trace := trace ex_state_synced @ [ListDir ''/backups'']\<rparr>"
  let ?sobjs = "[\<lparr>Key = ''db/a.sql''\<rparr>, \<lparr>Key = ''db/b.sql''\<rparr>]"
  let ?t2 = "?t1\<lparr>trace := trace ?t1 @ [Boto3Client ''AK'' ''SK'' ''eu'',
         ListObjectsV2 ?c ''bk'' (Some ''db/'')]\<rparr>"
  have s3: "local_files ex_env ex_state_synced (folder ex_rec) = (Inr [''a.sql'', ''b.sql''], ?t1)"
    by (simp add: fo ex_local_files)
  have s4: "remote_listing ex_env ?t1 ex_rec (strip '' db '') = (Inr (?c, ?sobjs), ?t2)"
    by (simp add: ex_strip ex_remote_listing ex_state_synced_def startswith_def)
  have eq: "set [''a.sql'', ''b.sql''] = set (s3_files ?sobjs)"
    by (simp add: ex_s3_files_synced)
  from plan_is_set_difference [OF h1 h2 s3 s4, THEN conjunct2, THEN conjunct2, THEN conjunct2,
         THEN conjunct2, rule_format, OF eq]
  have sync: "schedule_backup_rec ex_env ex_state_synced ex_rec = (Inr (), ?t2)" by (rule conjunct1)
  have t2: "?t2 = ex_state_synced\<lparr>trace := [ListDir ''/backups'', Boto3Client ''AK'' ''SK'' ''eu'',
          ListObjectsV2 (S3Client ''AK'' ''SK'' ''eu'') ''bk'' (Some ''db/'')]\<rparr>"
    by (simp add: ex_state_synced_def)
  from h1 h2 h3 h4 sets ok calls eq sync t2 show ?thesis by simp
qed

section \<open>Failures of single files\<close>

lemma upload_one_trace_mono:
  assumes "client_error ev (s3_access_key r) (s3_secret_key r) (s3_region r) = None"
  shows "set (trace s) \<subseteq> set (trace (snd (upload_one ev r f n s)))"
  by (auto simp: upload_one_result [OF assms] Let_def split: option.splits)

lemma delete_one_trace_mono:
  "set (trace s) \<subseteq> set (trace (snd (delete_one ev r c f n s)))"
  by (auto simp: delete_one_result Let_def split: option.splits)

lemma upload_one_caught:
  assumes cl: "client_error ev (s3_access_key r) (s3_secret_key r) (s3_region r) = None"
    and up: "\<And>e. upload_error ev (S3Client (s3_access_key r) (s3_secret_key r) (s3_region r))
               (path_join (folder r) n) (s3_bucket_name r) (f @ ''/'' @ n) = Some e
             \<Longrightarrow> isinstance e BotoCoreError"
  shows "fst (upload_one ev r f n s) = Inr ()"
    and "upload_error ev (S3Client (s3_access_key r) (s3_secret_key r) (s3_region r))
               (path_join (folder r) n) (s3_bucket_name r) (f @ ''/'' @ n) = Some e
         \<Longrightarrow> upload_failure_log n e \<in> set (trace (snd (upload_one ev r f n s)))"
  using up
  by (auto simp: upload_one_result [OF cl] Let_def upload_failure_log_def split: option.splits)

lemma delete_one_caught:
  assumes del: "\<And>e. delete_error ev c (s3_bucket_name r) (f @ ''/'' @ n) = Some e
             \<Longrightarrow> isinstance e ClientError"
  shows "fst (delete_one ev r c f n s) = Inr ()"
    and "delete_error ev c (s3_bucket_name r) (f @ ''/'' @ n) = Some e
         \<Longrightarrow> delete_failure_log (f @ ''/'' @ n) e \<in> set (trace (snd (delete_one ev r c f n s)))"
  using del
  by (auto simp: delete_one_result Let_def delete_failure_log_def split: option.splits)

lemma reconcile_caught:
  assumes cl: "client_error ev (s3_access_key r) (s3_secret_key r) (s3_region r) = None"
    and c: "c = S3Client (s3_access_key r) (s3_secret_key r) (s3_region r)"
    and up: "\<forall>n e. upload_error ev c (path_join (folder r) n) (s3_bucket_name r) (f @ ''/'' @ n) = Some e
             \<longrightarrow> isinstance e BotoCoreError"
    and del: "\<forall>n e. delete_error ev c (s3_bucket_name r) (f @ ''/'' @ n) = Some e
             \<longrightarrow> isinstance e ClientError"
  shows "fst (reconcile ev st r c f local objs) = Inr ()"
    and "n \<in> set local - set (s3_files objs) \<Longrightarrow>
         upload_error ev c (path_join (folder r) n) (s3_bucket_name r) (f @ ''/'' @ n) = Some e \<Longrightarrow>
         upload_failure_log n e \<in> set (trace (snd (reconcile ev st r c f local objs)))"
    and "n \<in> set (s3_files objs) - set local \<Longrightarrow>
         delete_error ev c (s3_bucket_name r) (f @ ''/'' @ n) = Some e \<Longrightarrow>
         delete_failure_log (f @ ''/'' @ n) e \<in> set (trace (snd (reconcile ev st r c f local objs)))"
proof -
  let ?ups = "set_iter (set_order ev) (files_to_upload local (s3_files objs))"
  let ?dels = "set_iter (set_order ev) (files_to_delete local (s3_files objs))"
  have u_ok: "\<And>x s. fst (upload_one ev r f x s) = Inr ()"
    using upload_one_caught(1) [OF cl] up c by blast
  have d_ok: "\<And>x s. fst (delete_one ev r c f x s) = Inr ()"
    using delete_one_caught(1) del by blast
  have uok: "fst (for_loop (upload_one ev r f) ?ups st) = Inr ()"
    by (rule for_loop_ok) (rule u_ok)
  then obtain st1 where st1: "for_loop (upload_one ev r f) ?ups st = (Inr (), st1)"
    by (cases "for_loop (upload_one ev r f) ?ups st") auto
  have rc: "reconcile ev st r c f local objs = for_loop (delete_one ev r c f) ?dels st1"
    using st1 by (simp add: reconcile_def)
  have dok: "fst (for_loop (delete_one ev r c f) ?dels st1) = Inr ()"
    by (rule for_loop_ok) (rule d_ok)
  with rc show "fst (reconcile ev st r c f local objs) = Inr ()" by simp
  {
    assume n: "n \<in> set local - set (s3_files objs)"
      and e: "upload_error ev c (path_join (folder r) n) (s3_bucket_name r) (f @ ''/'' @ n) = Some e"
    from n have nin: "n \<in> set ?ups" by (simp add: set_files_to_upload)
    have "\<forall>e. upload_error ev c (path_join (folder r) n) (s3_bucket_name r) (f @ ''/'' @ n) = Some e
            \<longrightarrow> upload_failure_log n e \<in> set (trace (snd (for_loop (upload_one ev r f) ?ups st)))"
    proof (rule for_loop_each [where Q = "\<lambda>x s. \<forall>e. upload_error ev c (path_join (folder r) x)
                  (s3_bucket_name r) (f @ ''/'' @ x) = Some e \<longrightarrow> upload_failure_log x e \<in> set (trace s)"
             and body = "upload_one ev r f" and xs = ?ups and st = st and x = n])
      fix x :: string and s :: state
      show "\<forall>e. upload_error ev c (path_join (folder r) x) (s3_bucket_name r) (f @ ''/'' @ x) = Some e
              \<longrightarrow> upload_failure_log x e \<in> set (trace (snd (upload_one ev r f x s)))"
        using upload_one_caught(2) [OF cl, where f = f and n = x and s = s] up c by blast
    next
      fix x y :: string and s :: state
      assume "\<forall>e. upload_error ev c (path_join (folder r) x) (s3_bucket_name r) (f @ ''/'' @ x) = Some e
              \<longrightarrow> upload_failure_log x e \<in> set (trace s)"
      then show "\<forall>e. upload_error ev c (path_join (folder r) x) (s3_bucket_name r) (f @ ''/'' @ x) = Some e
              \<longrightarrow> upload_failure_log x e \<in> set (trace (snd (upload_one ev r f y s)))"
        using upload_one_trace_mono [OF cl, where s = s and f = f and n = y] by blast
    next
      show "fst (for_loop (upload_one ev r f) ?ups st) = Inr ()" by (rule uok)
    next
      show "n \<in> set ?ups" by (rule nin)
    qed
    with e have "upload_failure_log n e \<in> set (trace (snd (for_loop (upload_one ev r f) ?ups st)))"
      by blast
    with st1 have "upload_failure_log n e \<in> set (trace st1)" by simp
    then have "upload_failure_log n e \<in> set (trace (snd (for_loop (delete_one ev r c f) ?dels st1)))"
      by (rule for_loop_invariant [where P = "\<lambda>s. upload_failure_log n e \<in> set (trace s)", rotated])
         (use delete_one_trace_mono in blast)
    with rc show "upload_failure_log n e \<in> set (trace (snd (reconcile ev st r c f local objs)))"
      by simp
  }
  {
    assume n: "n \<in> set (s3_files objs) - set local"
      and e: "delete_error ev c (s3_bucket_name r) (f @ ''/'' @ n) = Some e"
    from n have nin: "n \<in> set ?dels" by (simp add: set_files_to_delete)
    have "\<forall>e. delete_error ev c (s3_bucket_name r) (f @ ''/'' @ n) = Some e
            \<longrightarrow> delete_failure_log (f @ ''/'' @ n) e
                  \<in> set (trace (snd (for_loop (delete_one ev r c f) ?dels st1)))"
    proof (rule for_loop_each [where Q = "\<lambda>x s. \<forall>e. delete_error ev c (s3_bucket_name r)
                  (f @ ''/'' @ x) = Some e \<longrightarrow> delete_failure_log (f @ ''/'' @ x) e \<in> set (trace s)"
             and body = "delete_one ev r c f" and xs = ?dels and st = st1 and x = n])
      fix x :: string and s :: state
      show "\<forall>e. delete_error ev c (s3_bucket_name r) (f @ ''/'' @ x) = Some e
              \<longrightarrow> delete_failure_log (f @ ''/'' @ x) e \<in> set (trace (snd (delete_one ev r c f x s)))"
        using delete_one_caught(2) [where ev = ev and c = c and r = r and f = f and n = x and s = s]
          del by blast
    next
      fix x y :: string and s :: state
      assume "\<forall>e. delete_error ev c (s3_bucket_name r) (f @ ''/'' @ x) = Some e
              \<longrightarrow> delete_failure_log (f @ ''/'' @ x) e \<in> set (trace s)"
      then show "\<forall>e. delete_error ev c (s3_bucket_name r) (f @ ''/'' @ x) = Some e
              \<longrightarrow> delete_failure_log (f @ ''/'' @ x) e \<in> set (trace (snd (delete_one ev r c f y s)))"
        using delete_one_trace_mono [where s = s and ev = ev and r = r and c = c and f = f and n = y]
        by blast
    next
      show "fst (for_loop (delete_one ev r c f) ?dels st1) = Inr ()" by (rule dok)
    next
      show "n \<in> set ?dels" by (rule nin)
    qed
    with e have "delete_failure_log (f @ ''/'' @ n) e
            \<in> set (trace (snd (for_loop (delete_one ev r c f) ?dels st1)))"
      by blast
    with rc show "delete_failure_log (f @ ''/'' @ n) e
            \<in> set (trace (snd (reconcile ev st r c f local objs)))"
      by simp
  }
qed

lemma schedule_backup_rec_caught:
  assumes up: "\<forall>c p b k e. upload_error ev c p b k = Some e \<longrightarrow> isinstance e BotoCoreError"
    and del: "\<forall>c b k e. delete_error ev c b k = Some e \<longrightarrow> isinstance e ClientError"
    and name: "s3_write r \<longrightarrow> s3_folder_name r \<noteq> None"
  shows "fst (schedule_backup_rec ev st r) = Inr ()"
proof (cases "s3_write r")
  case False
  then show ?thesis by (simp add: schedule_backup_rec_def)
next
  case True
  with name obtain nm where nm: "s3_folder_name r = Some nm" by auto
  show ?thesis
  proof (cases "local_files ev st (folder r)")
    case (Pair res st1)
    show ?thesis
    proof (cases res)
      case (Inl e)
      with True nm Pair show ?thesis by (simp add: schedule_backup_rec_def Let_def)
    next
      case (Inr local)
      show ?thesis
      proof (cases "remote_listing ev st1 r (strip nm)")
        case rl: (Pair res2 st2)
        show ?thesis
        proof (cases res2)
          case (Inl e)
          with True nm Pair Inr rl show ?thesis by (simp add: schedule_backup_rec_def Let_def)
        next
          case inr2: (Inr co)
          obtain c objs where co: "co = (c, objs)" by (cases co)
          from rl inr2 co have rl': "remote_listing ev st1 r (strip nm) = (Inr (c, objs), st2)"
            by simp
          from Pair Inr have lf: "local_files ev st (folder r) = (Inr local, st1)" by simp
          have "schedule_backup_rec ev st r = reconcile ev st2 r c (strip nm) local objs"
            using True nm lf rl' by (rule schedule_backup_rec_reconcile)
          moreover have "fst (reconcile ev st2 r c (strip nm) local objs) = Inr ()"
          proof (rule reconcile_caught(1) [OF remote_listing_Inr(1,2) [OF rl']])
            show "\<forall>n e. upload_error ev c (path_join (folder r) n) (s3_bucket_name r)
                     (strip nm @ ''/'' @ n) = Some e \<longrightarrow> isinstance e BotoCoreError"
              using up by blast
            show "\<forall>n e. delete_error ev c (s3_bucket_name r) (strip nm @ ''/'' @ n) = Some e
                     \<longrightarrow> isinstance e ClientError"
              using del by blast
          qed
          ultimately show ?thesis by simp
        qed
      qed
    qed
  qed
qed

lemma schedule_backup_loop_caught:
  assumes up: "\<forall>c p b k e. upload_error ev c p b k = Some e \<longrightarrow> isinstance e BotoCoreError"
    and del: "\<forall>c b k e. delete_error ev c b k = Some e \<longrightarrow> isinstance e ClientError"
    and names: "\<forall>r\<in>set conf_ids. s3_write r \<longrightarrow> s3_folder_name r \<noteq> None"
  shows "fst (schedule_backup_loop ev st conf_ids) = Inr ()"
  unfolding schedule_backup_loop_def
  by (rule for_loop_ok) (use schedule_backup_rec_caught [OF up del] names in blast)

text \<open>
  What the handlers do cover. When every error of \<open>upload_file\<close> is a \<open>BotoCoreError\<close>
  (or a subclass, such as \<open>NoCredentialsError\<close>) and every error of \<open>delete_object\<close> is
  a \<open>ClientError\<close>, the classes the handlers name, no exception leaves the loop over
  the targets (given that every enabled target has its folder name set), nor the entry
  point once the inherited method has returned; and in every cycle whose scan and
  listing succeed each planned upload and each planned delete is attempted, and each
  one that fails is logged.
\<close>

theorem caught_failures_are_isolated:
  assumes up: "\<forall>c p b k e. upload_error ev c p b k = Some e \<longrightarrow> isinstance e BotoCoreError"
    and del: "\<forall>c b k e. delete_error ev c b k = Some e \<longrightarrow> isinstance e ClientError"
    and names: "\<forall>r\<in>set conf_ids. s3_write r \<longrightarrow> s3_folder_name r \<noteq> None"
  shows "fst (schedule_backup_loop ev st conf_ids) = Inr ()
    \<and> (fst (super st) = Inr () \<longrightarrow> fst (schedule_backup super ev st conf_ids) = Inr ())
    \<and> (\<forall>r s name local s1 c objs s2.
          s3_write r \<and> s3_folder_name r = Some name
          \<and> local_files ev s (folder r) = (Inr local, s1)
          \<and> remote_listing ev s1 r (strip name) = (Inr (c, objs), s2) \<longrightarrow>
            fst (schedule_backup_rec ev s r) = Inr ()
          \<and> upload_calls (trace (snd (schedule_backup_rec ev s r))) =
              upload_calls (trace s) @ map (\<lambda>n. (s3_bucket_name r, strip name @ ''/'' @ n))
                (set_iter (set_order ev) (files_to_upload local (s3_files objs)))
          \<and> delete_calls (trace (snd (schedule_backup_rec ev s r))) =
              delete_calls (trace s) @ map (\<lambda>n. (s3_bucket_name r, strip name @ ''/'' @ n))
                (set_iter (set_order ev) (files_to_delete local (s3_files objs)))
          \<and> (\<forall>n e. n \<in> set local - set (s3_files objs)
                \<and> upload_error ev c (path_join (folder r) n) (s3_bucket_name r)
                     (strip name @ ''/'' @ n) = Some e
                \<longrightarrow> upload_failure_log n e \<in> set (trace (snd (schedule_backup_rec ev s r))))
          \<and> (\<forall>n e. n \<in> set (s3_files objs) - set local
                \<and> delete_error ev c (s3_bucket_name r) (strip name @ ''/'' @ n) = Some e
                \<longrightarrow> delete_failure_log (strip name @ ''/'' @ n) e
                      \<in> set (trace (snd (schedule_backup_rec ev s r)))))"
proof (intro conjI allI impI)
  show "fst (schedule_backup_loop ev st conf_ids) = Inr ()"
    using up del names by (rule schedule_backup_loop_caught)
next
  assume "fst (super st) = Inr ()"
  then obtain st0 where "super st = (Inr (), st0)" by (cases "super st") auto
  then show "fst (schedule_backup super ev st conf_ids) = Inr ()"
    using schedule_backup_loop_caught [OF up del names, of st0]
    by (simp add: schedule_backup_def)
next
  fix r s name local s1 c objs s2
  assume h: "s3_write r \<and> s3_folder_name r = Some name
          \<and> local_files ev s (folder r) = (Inr local, s1)
          \<and> remote_listing ev s1 r (strip name) = (Inr (c, objs), s2)"
  from h have w: "s3_write r" and nm: "s3_folder_name r = Some name"
    and lf: "local_files ev s (folder r) = (Inr local, s1)"
    and rl: "remote_listing ev s1 r (strip name) = (Inr (c, objs), s2)"
    by blast+
  have rc: "schedule_backup_rec ev s r = reconcile ev s2 r c (strip name) local objs"
    using w nm lf rl by (rule schedule_backup_rec_reconcile)
  note cl = remote_listing_Inr(1) [OF rl] and c = remote_listing_Inr(2) [OF rl]
  note tr = scan_and_listing_trace [OF lf rl]
  have up': "\<forall>n e. upload_error ev c (path_join (folder r) n) (s3_bucket_name r)
               (strip name @ ''/'' @ n) = Some e \<longrightarrow> isinstance e BotoCoreError"
    using up by blast
  have del': "\<forall>n e. delete_error ev c (s3_bucket_name r) (strip name @ ''/'' @ n) = Some e
               \<longrightarrow> isinstance e ClientError"
    using del by blast
  have ok: "fst (reconcile ev s2 r c (strip name) local objs) = Inr ()"
    using reconcile_caught(1) [where f = "strip name" and r = r and ev = ev and c = c, OF cl c up' del']
    by blast
  with rc show "fst (schedule_backup_rec ev s r) = Inr ()" by simp
  show "upload_calls (trace (snd (schedule_backup_rec ev s r))) =
              upload_calls (trace s) @ map (\<lambda>n. (s3_bucket_name r, strip name @ ''/'' @ n))
                (set_iter (set_order ev) (files_to_upload local (s3_files objs)))"
    using reconcile_calls(1) [OF cl ok] rc tr by simp
  show "delete_calls (trace (snd (schedule_backup_rec ev s r))) =
              delete_calls (trace s) @ map (\<lambda>n. (s3_bucket_name r, strip name @ ''/'' @ n))
                (set_iter (set_order ev) (files_to_delete local (s3_files objs)))"
    using reconcile_calls(2) [OF cl ok] rc tr by simp
  {
    fix n e
    assume a: "n \<in> set local - set (s3_files objs)
                \<and> upload_error ev c (path_join (folder r) n) (s3_bucket_name r)
                     (strip name @ ''/'' @ n) = Some e"
    then have "upload_failure_log n e \<in> set (trace (snd (reconcile ev s2 r c (strip name) local objs)))"
      using reconcile_caught(2) [where f = "strip name" and n = n and e = e and r = r and ev = ev
              and c = c and st = s2 and local = local and objs = objs, OF cl c up' del']
      by blast
    with rc show "upload_failure_log n e \<in> set (trace (snd (schedule_backup_rec ev s r)))"
      by simp
  }
  {
    fix n e
    assume a: "n \<in> set (s3_files objs) - set local
                \<and> delete_error ev c (s3_bucket_name r) (strip name @ ''/'' @ n) = Some e"
    then have "delete_failure_log (strip name @ ''/'' @ n) e
         \<in> set (trace (snd (reconcile ev s2 r c (strip name) local objs)))"
      using reconcile_caught(3) [where f = "strip name" and n = n and e = e and r = r and ev = ev
              and c = c and st = s2 and local = local and objs = objs, OF cl c up' del']
      by blast
    with rc show "delete_failure_log (strip name @ ''/'' @ n) e
                      \<in> set (trace (snd (schedule_backup_rec ev s r)))"
      by simp
  }
qed

text \<open>
  Claim C2, evaluated where the code breaks it. The service refuses an upload: boto3
  raises \<open>S3UploadFailedError\<close>, which is no \<open>BotoCoreError\<close>, so \<open>upload_to_s3\<close> lets it
  pass and the loop's \<open>except UserError\<close> does not catch it. The exception leaves the
  entry point: the failure is not logged, the delete of \<open>db/c.sql\<close> is not attempted
  and the second target is not reached. Likewise for a delete that cannot reach the
  endpoint: \<open>EndpointConnectionError\<close> is no \<open>ClientError\<close>.
\<close>

theorem per_file_failure_leaves_entry_point:
  "fst (schedule_backup (\<lambda>st. (Inr (), st)) ex_env_denied ex_state [ex_rec, ex_rec_missing])
     = Inl (Exn S3UploadFailedError
         ''Failed to upload: An error occurred (AccessDenied) when calling the PutObject operation: Access Denied'')
   \<and> trace (snd (schedule_backup (\<lambda>st. (Inr (), st)) ex_env_denied ex_state [ex_rec, ex_rec_missing]))
     = [ListDir ''/backups'', Boto3Client ''AK'' ''SK'' ''eu'',
        ListObjectsV2 (S3Client ''AK'' ''SK'' ''eu'') ''bk'' (Some ''db/''),
        Boto3Client ''AK'' ''SK'' ''eu'',
        UploadFile (S3Client ''AK'' ''SK'' ''eu'') ''/backups/a.sql'' ''bk'' ''db/a.sql'']
   \<and> fst (schedule_backup (\<lambda>st. (Inr (), st)) ex_env_unreachable ex_state [ex_rec, ex_rec_missing])
     = Inl (Exn EndpointConnectionError ''Could not connect to the endpoint URL'')
   \<and> trace (snd (schedule_backup (\<lambda>st. (Inr (), st)) ex_env_unreachable ex_state
                   [ex_rec, ex_rec_missing]))
     = [ListDir ''/backups'', Boto3Client ''AK'' ''SK'' ''eu'',
        ListObjectsV2 (S3Client ''AK'' ''SK'' ''eu'') ''bk'' (Some ''db/''),
        Boto3Client ''AK'' ''SK'' ''eu'',
        UploadFile (S3Client ''AK'' ''SK'' ''eu'') ''/backups/a.sql'' ''bk'' ''db/a.sql'',
        LogInfo ''Successfully uploaded /backups/a.sql to S3 bucket bk'',
        LogInfo ''Uploaded file to S3: db/a.sql'',
        DeleteObject (S3Client ''AK'' ''SK'' ''eu'') ''bk'' ''db/c.sql'']"
  by code_simp

lemma flaky_local_files:
  "local_files ex_env_flaky st ''/backups'' = (Inr [''a.sql'', ''b.sql''], st\<lparr>trace := trace st @ [ListDir ''/backups'']\<rparr>)"
  by (simp add: local_files_def ex_env_flaky_def ex_env_def emit_def path_join_def basename_def)

lemma flaky_remote_listing:
  "remote_listing ex_env_flaky st ex_rec ''db'' =
     (Inr (S3Client ''AK'' ''SK'' ''eu'',
           map (\<lambda>k. \<lparr>Key = k\<rparr>) (take 1000 (filter (\<lambda>k. startswith k ''db/'') (buckets st ''bk'')))),
      st\<lparr>trace := trace st @ [Boto3Client ''AK'' ''SK'' ''eu'',
         ListObjectsV2 (S3Client ''AK'' ''SK'' ''eu'') ''bk'' (Some ''db/'')]\<rparr>)"
  by (simp add: remote_listing_def get_s3_client_def boto3_client_def list_s3_objects_def
        list_objects_v2_def matching_keys_def ex_env_flaky_def ex_env_def ex_rec_def emit_def Let_def)

theorem caught_failures_are_isolated_witness:
  "upload_error ex_env_flaky =
     (\<lambda>c f b k. Some (Exn EndpointConnectionError ''Could not connect to the endpoint URL''))
   \<and> isinstance (Exn EndpointConnectionError ''Could not connect to the endpoint URL'') BotoCoreError
   \<and> delete_error ex_env_flaky =
     (\<lambda>c b k. Some (Exn ClientError
       ''An error occurred (AccessDenied) when calling the DeleteObject operation: Access Denied''))
   \<and> isinstance (Exn ClientError
       ''An error occurred (AccessDenied) when calling the DeleteObject operation: Access Denied'')
        ClientError
   \<and> s3_folder_name ex_rec = Some '' db '' \<and> s3_folder_name ex_rec_missing = Some '' db ''
   \<and> fst (schedule_backup_loop ex_env_flaky ex_state [ex_rec, ex_rec_missing]) = Inr ()
   \<and> upload_calls (trace (snd (schedule_backup_rec ex_env_flaky ex_state ex_rec)))
       = [(''bk'', ''db/a.sql'')]
   \<and> delete_calls (trace (snd (schedule_backup_rec ex_env_flaky ex_state ex_rec)))
       = [(''bk'', ''db/c.sql'')]
   \<and> upload_failure_log ''a.sql''
        (Exn EndpointConnectionError ''Could not connect to the endpoint URL'')
       \<in> set (trace (snd (schedule_backup_rec ex_env_flaky ex_state ex_rec)))
   \<and> delete_failure_log ''db/c.sql'' (Exn ClientError
       ''An error occurred (AccessDenied) when calling the DeleteObject operation: Access Denied'')
       \<in> set (trace (snd (schedule_backup_rec ex_env_flaky ex_state ex_rec)))"
proof -
  let ?ue = "Exn EndpointConnectionError ''Could not connect to the endpoint URL''"
  let ?de = "Exn ClientError
       ''An error occurred (AccessDenied) when calling the DeleteObject operation: Access Denied''"
  have ue: "upload_error ex_env_flaky = (\<lambda>c f b k. Some ?ue)"
    and de: "delete_error ex_env_flaky = (\<lambda>c b k. Some ?de)"
    and so: "set_order ex_env_flaky = length"
    by (simp_all add: ex_env_flaky_def ex_env_def)
  have iu: "isinstance ?ue BotoCoreError" and idl: "isinstance ?de ClientError"
    by (simp_all add: isinstance_def)
  have n1: "s3_folder_name ex_rec = Some '' db ''"
    and n2: "s3_folder_name ex_rec_missing = Some '' db ''"
    and w: "s3_write ex_rec" and fo: "folder ex_rec = ''/backups''"
    and bk: "s3_bucket_name ex_rec = ''bk''"
    by (simp_all add: ex_rec_def ex_rec_missing_def)
  have h_up: "\<forall>c p b k e. upload_error ex_env_flaky c p b k = Some e \<longrightarrow> isinstance e BotoCoreError"
    using iu by (simp add: ue)
  have h_del: "\<forall>c b k e. delete_error ex_env_flaky c b k = Some e \<longrightarrow> isinstance e ClientError"
    using idl by (simp add: de)
  have h_names: "\<forall>r\<in>set [ex_rec, ex_rec_missing]. s3_write r \<longrightarrow> s3_folder_name r \<noteq> None"
    by (simp add: n1 n2)
  note main = caught_failures_are_isolated [OF h_up h_del h_names,
      where st = ex_state and super = "\<lambda>st. (Inr (), st)"]
  note loop = main [THEN conjunct1]
  let ?st1 = "ex_state\<lparr>trace := trace ex_state @ [ListDir ''/backups'']\<rparr>"
  let ?objs = "[\<lparr>Key = ''db/b.sql''\<rparr>, \<lparr>Key = ''db/c.sql''\<rparr>]"
  let ?c = "S3Client ''AK'' ''SK'' ''eu''"
  let ?st2 = "?st1\<lparr>trace := trace ?st1 @ [Boto3Client ''AK'' ''SK'' ''eu'',
         ListObjectsV2 ?c ''bk'' (Some ''db/'')]\<rparr>"
  have lf: "local_files ex_env_flaky ex_state (folder ex_rec) = (Inr [''a.sql'', ''b.sql''], ?st1)"
    by (simp add: fo flaky_local_files)
  have rl: "remote_listing ex_env_flaky ?st1 ex_rec (strip '' db '') = (Inr (?c, ?objs), ?st2)"
    by (simp add: ex_strip flaky_remote_listing ex_state_def startswith_def)
  have pre: "s3_write ex_rec \<and> s3_folder_name ex_rec = Some '' db ''
      \<and> local_files ex_env_flaky ex_state (folder ex_rec) = (Inr [''a.sql'', ''b.sql''], ?st1)
      \<and> remote_listing ex_env_flaky ?st1 ex_rec (strip '' db '') = (Inr (?c, ?objs), ?st2)"
    using w n1 lf rl by blast
  note tgt = main [THEN conjunct2, THEN conjunct2, rule_format, OF pre]
  have up: "set_iter length (files_to_upload [''a.sql'', ''b.sql''] (s3_files ?objs)) = [''a.sql'']"
    by (simp add: ex_s3_files files_to_upload_def set_difference_def set_iter_def)
  have del: "set_iter length (files_to_delete [''a.sql'', ''b.sql''] (s3_files ?objs)) = [''c.sql'']"
    by (simp add: ex_s3_files files_to_delete_def set_difference_def set_iter_def)
  have tr0: "trace ex_state = []" by (simp add: ex_state_def)
  have uc: "upload_calls (trace (snd (schedule_backup_rec ex_env_flaky ex_state ex_rec)))
       = [(''bk'', ''db/a.sql'')]"
    using tgt [THEN conjunct2, THEN conjunct1] by (simp add: so up bk ex_strip tr0)
  have dc: "delete_calls (trace (snd (schedule_backup_rec ex_env_flaky ex_state ex_rec)))
       = [(''bk'', ''db/c.sql'')]"
    using tgt [THEN conjunct2, THEN conjunct2, THEN conjunct1] by (simp add: so del bk ex_strip tr0)
  have a_in: "''a.sql'' \<in> set [''a.sql'', ''b.sql''] - set (s3_files ?objs)
      \<and> upload_error ex_env_flaky ?c (path_join (folder ex_rec) ''a.sql'') (s3_bucket_name ex_rec)
           (strip '' db '' @ ''/'' @ ''a.sql'') = Some ?ue"
    by (simp add: ex_s3_files ue)
  have c_in: "''c.sql'' \<in> set (s3_files ?objs) - set [''a.sql'', ''b.sql'']
      \<and> delete_error ex_env_flaky ?c (s3_bucket_name ex_rec)
           (strip '' db '' @ ''/'' @ ''c.sql'') = Some ?de"
    by (simp add: ex_s3_files de)
  have ul: "upload_failure_log ''a.sql'' ?ue
       \<in> set (trace (snd (schedule_backup_rec ex_env_flaky ex_state ex_rec)))"
    using tgt [THEN conjunct2, THEN conjunct2, THEN conjunct2, THEN conjunct1, rule_format, OF a_in] .
  have dl: "delete_failure_log ''db/c.sql'' ?de
       \<in> set (trace (snd (schedule_backup_rec ex_env_flaky ex_state ex_rec)))"
    using tgt [THEN conjunct2, THEN conjunct2, THEN conjunct2, THEN conjunct2, rule_format, OF c_in]
    by (simp add: ex_strip)
  from ue iu de idl n1 n2 loop uc dc ul dl show ?thesis by blast
qed

section \<open>The folder marker\<close>

lemma basename_no_slash:
  assumes "CHR ''/'' \<notin> set n"
  shows "basename n = n"
proof -
  from assms have "takeWhile (\<lambda>c. c \<noteq> CHR ''/'') (rev n) = rev n"
    by (intro takeWhile_eq_all_conv [THEN iffD2]) auto
  then show ?thesis unfolding basename_def by (simp only: rev_rev_ident)
qed

lemma local_files_valid:
  assumes lf: "local_files ev st p = (Inr local, st1)"
    and ld: "listdir ev p = Inr names"
    and valid: "\<forall>n\<in>set names. n \<noteq> [] \<and> CHR ''/'' \<notin> set n"
  shows "[] \<notin> set local"
proof -
  from local_files_Inr(1) [OF lf] ld
  have l: "local = remdups (map basename (filter (\<lambda>f. isfile ev (path_join p f)) names))"
    by simp
  show ?thesis
  proof
    assume "[] \<in> set local"
    with l obtain n where n: "n \<in> set names" and b: "basename n = []" by auto
    from valid n have "n \<noteq> []" and "CHR ''/'' \<notin> set n" by auto
    with b show False by (simp add: basename_no_slash)
  qed
qed

text \<open>
  What holds of a folder marker. When the listing holds the key \<open>prefix/\<close> itself, its
  computed name is the empty string; no name of the local set is empty (the entries of
  \<open>os.listdir\<close> are non-empty and hold no slash); so the empty name is among the names
  to delete in every such cycle, and every such cycle that returns normally has called
  \<open>delete_object\<close> on the key \<open>prefix/\<close>.
\<close>

theorem folder_marker_is_deleted:
  assumes "s3_write r" and "s3_folder_name r = Some name"
    and "listdir ev (folder r) = Inr names"
    and "\<forall>n\<in>set names. n \<noteq> [] \<and> CHR ''/'' \<notin> set n"
    and "local_files ev st (folder r) = (Inr local, st1)"
    and "remote_listing ev st1 r (strip name) = (Inr (c, s3_objects), st2)"
    and "\<lparr>Key = strip name @ ''/''\<rparr> \<in> set s3_objects"
  shows "s3_file \<lparr>Key = strip name @ ''/''\<rparr> = []
    \<and> [] \<notin> set local
    \<and> [] \<in> set (set_iter (set_order ev) (files_to_delete local (s3_files s3_objects)))
    \<and> (fst (schedule_backup_rec ev st r) = Inr () \<longrightarrow>
          delete_calls (trace (snd (schedule_backup_rec ev st r))) =
            delete_calls (trace st) @ map (\<lambda>n. (s3_bucket_name r, strip name @ ''/'' @ n))
              (set_iter (set_order ev) (files_to_delete local (s3_files s3_objects)))
        \<and> (s3_bucket_name r, strip name @ ''/'')
            \<in> set (map (\<lambda>n. (s3_bucket_name r, strip name @ ''/'' @ n))
                 (set_iter (set_order ev) (files_to_delete local (s3_files s3_objects)))))"
proof -
  have e: "s3_file \<lparr>Key = strip name @ ''/''\<rparr> = []"
    using s3_file_key [of "strip name" "[]"] by simp
  have nl: "[] \<notin> set local"
    using assms(5,3,4) by (rule local_files_valid)
  have "s3_file \<lparr>Key = strip name @ ''/''\<rparr> \<in> set (s3_files s3_objects)"
    using assms(7) by (simp add: s3_files_def)
  with e have "[] \<in> set (s3_files s3_objects)" by simp
  with nl have d: "[] \<in> set (set_iter (set_order ev) (files_to_delete local (s3_files s3_objects)))"
    by (simp add: set_files_to_delete)
  have rc: "schedule_backup_rec ev st r = reconcile ev st2 r c (strip name) local s3_objects"
    using assms(1,2,5,6) by (rule schedule_backup_rec_reconcile)
  note cl = remote_listing_Inr(1) [OF assms(6)]
  note tr = scan_and_listing_trace [OF assms(5,6)]
  have calls: "fst (schedule_backup_rec ev st r) = Inr () \<longrightarrow>
          delete_calls (trace (snd (schedule_backup_rec ev st r))) =
            delete_calls (trace st) @ map (\<lambda>n. (s3_bucket_name r, strip name @ ''/'' @ n))
              (set_iter (set_order ev) (files_to_delete local (s3_files s3_objects)))"
    using reconcile_calls(2) [OF cl, of st2 c "strip name" local s3_objects] rc tr by simp
  have m: "(s3_bucket_name r, strip name @ ''/'')
            \<in> set (map (\<lambda>n. (s3_bucket_name r, strip name @ ''/'' @ n))
                 (set_iter (set_order ev) (files_to_delete local (s3_files s3_objects))))"
    using d by (force simp del: set_set_iter)
  from e nl d calls m show ?thesis by blast
qed

text \<open>
  Claim C10, evaluated where the code breaks it. The listing holds the marker \<open>db/\<close>
  and the empty name is scheduled for deletion, but the upload of \<open>a.sql\<close> raises
  \<open>S3UploadFailedError\<close>, which no handler catches: the exception ends the cycle in the
  upload loop and \<open>delete_object\<close> is never called.
\<close>

theorem folder_marker_delete_not_attempted:
  "fst (local_files ex_env_denied ex_state_marker (folder ex_rec)) = Inr [''a.sql'', ''b.sql'']
   \<and> fst (remote_listing ex_env_denied (snd (local_files ex_env_denied ex_state_marker (folder ex_rec)))
          ex_rec (strip '' db ''))
     = Inr (S3Client ''AK'' ''SK'' ''eu'', [\<lparr>Key = ''db/''\<rparr>, \<lparr>Key = ''db/b.sql''\<rparr>])
   \<and> files_to_delete [''a.sql'', ''b.sql''] (s3_files [\<lparr>Key = ''db/''\<rparr>, \<lparr>Key = ''db/b.sql''\<rparr>])
     = [[]]
   \<and> fst (schedule_backup_rec ex_env_denied ex_state_marker ex_rec)
     = Inl (Exn S3UploadFailedError
         ''Failed to upload: An error occurred (AccessDenied) when calling the PutObject operation: Access Denied'')
   \<and> trace (snd (schedule_backup_rec ex_env_denied ex_state_marker ex_rec))
     = [ListDir ''/backups'', Boto3Client ''AK'' ''SK'' ''eu'',
        ListObjectsV2 (S3Client ''AK'' ''SK'' ''eu'') ''bk'' (Some ''db/''),
        Boto3Client ''AK'' ''SK'' ''eu'',
        UploadFile (S3Client ''AK'' ''SK'' ''eu'') ''/backups/a.sql'' ''bk'' ''db/a.sql'']
   \<and> delete_calls (trace (snd (schedule_backup_rec ex_env_denied ex_state_marker ex_rec))) = []"
  by code_simp

theorem folder_marker_is_deleted_witness:
  "s3_write ex_rec \<and> s3_folder_name ex_rec = Some '' db ''
   \<and> listdir ex_env (folder ex_rec) = Inr [''a.sql'', ''b.sql'', ''old'']
   \<and> fst (local_files ex_env ex_state_marker (folder ex_rec)) = Inr [''a.sql'', ''b.sql'']
   \<and> fst (remote_listing ex_env (snd (local_files ex_env ex_state_marker (folder ex_rec)))
          ex_rec (strip '' db ''))
       = Inr (S3Client ''AK'' ''SK'' ''eu'', [\<lparr>Key = ''db/''\<rparr>, \<lparr>Key = ''db/b.sql''\<rparr>])
   \<and> fst (schedule_backup_rec ex_env ex_state_marker ex_rec) = Inr ()
   \<and> delete_calls (trace (snd (schedule_backup_rec ex_env ex_state_marker ex_rec)))
       = [(''bk'', ''db/'')]"
proof -
  have h1: "s3_write ex_rec" and h2: "s3_folder_name ex_rec = Some '' db ''"
    and fo: "folder ex_rec = ''/backups''" and bk: "s3_bucket_name ex_rec = ''bk''"
    by (simp_all add: ex_rec_def)
  have h3: "listdir ex_env (folder ex_rec) = Inr [''a.sql'', ''b.sql'', ''old'']"
    by (simp add: fo ex_env_def)
  have h4: "\<forall>n\<in>set [''a.sql'', ''b.sql'', ''old'']. n \<noteq> [] \<and> CHR ''/'' \<notin> set n"
    by simp
  let ?st1 = "ex_state_marker\<lparr>trace := trace ex_state_marker @ [ListDir ''/backups'']\<rparr>"
  let ?objs = "[\<lparr>Key = ''db/''\<rparr>, \<lparr>Key = ''db/b.sql''\<rparr>]"
  let ?c = "S3Client ''AK'' ''SK'' ''eu''"
  let ?st2 = "?st1\<lparr>trace := trace ?st1 @ [Boto3Client ''AK'' ''SK'' ''eu'',
         ListObjectsV2 ?c ''bk'' (Some ''db/'')]\<rparr>"
  have h5: "local_files ex_env ex_state_marker (folder ex_rec) = (Inr [''a.sql'', ''b.sql''], ?st1)"
    by (simp add: fo ex_local_files)
  have h6: "remote_listing ex_env ?st1 ex_rec (strip '' db '') = (Inr (?c, ?objs), ?st2)"
    by (simp add: ex_strip ex_remote_listing ex_state_marker_def startswith_def)
  have h7: "\<lparr>Key = strip '' db '' @ ''/''\<rparr> \<in> set ?objs"
    by (simp add: ex_strip)
  note a = folder_marker_is_deleted [OF h1 h2 h3 h4 h5 h6 h7]
  have ok: "fst (schedule_backup_rec ex_env ex_state_marker ex_rec) = Inr ()"
    by code_simp
  have del: "set_iter (set_order ex_env) (files_to_delete [''a.sql'', ''b.sql''] (s3_files ?objs)) = [[]]"
    by (simp add: s3_files_def s3_file_def files_to_delete_def set_difference_def set_iter_def)
  have tr0: "trace ex_state_marker = []" by (simp add: ex_state_marker_def)
  have dc: "delete_calls (trace (snd (schedule_backup_rec ex_env ex_state_marker ex_rec)))
       = [(''bk'', ''db/'')]"
    using a [THEN conjunct2, THEN conjunct2, THEN conjunct2, rule_format, OF ok, THEN conjunct1]
    by (simp add: del bk ex_strip tr0)
  from h1 h2 h3 h5 h6 ok dc show ?thesis by simp
qed

section \<open>The bucket after a cycle\<close>

lemma set_put_key [simp]: "set (put_key k ks) = insert k (set ks)"
  by (auto simp: put_key_def set_insort_key)

lemma distinct_put_key: "distinct ks \<Longrightarrow> distinct (put_key k ks)"
  by (simp add: put_key_def distinct_insort)

lemma set_fold_put_key: "set (fold (\<lambda>n. put_key (g n)) xs ks) = set ks \<union> g ` set xs"
  by (induction xs arbitrary: ks) auto

lemma distinct_fold_put_key: "distinct ks \<Longrightarrow> distinct (fold (\<lambda>n. put_key (g n)) xs ks)"
  by (induction xs arbitrary: ks) (simp_all add: distinct_put_key)

lemma set_fold_removeAll: "set (fold (\<lambda>n. removeAll (g n)) xs ks) = set ks - g ` set xs"
  by (induction xs arbitrary: ks) auto

lemma distinct_fold_removeAll: "distinct ks \<Longrightarrow> distinct (fold (\<lambda>n. removeAll (g n)) xs ks)"
  by (induction xs arbitrary: ks) (simp_all add: distinct_removeAll)

lemma upload_loop_buckets:
  assumes cl: "client_error ev (s3_access_key r) (s3_secret_key r) (s3_region r) = None"
    and ok: "\<forall>n\<in>set xs. upload_error ev (S3Client (s3_access_key r) (s3_secret_key r) (s3_region r))
               (path_join (folder r) n) (s3_bucket_name r) (f @ ''/'' @ n) = None"
  shows "fst (for_loop (upload_one ev r f) xs st) = Inr ()"
    and "buckets (snd (for_loop (upload_one ev r f) xs st)) (s3_bucket_name r) =
           fold (\<lambda>n. put_key (f @ ''/'' @ n)) xs (buckets st (s3_bucket_name r))"
proof -
  have step: "\<And>x s. x \<in> set xs \<Longrightarrow>
      fst (upload_one ev r f x s) = Inr () \<and>
      buckets (snd (upload_one ev r f x s)) (s3_bucket_name r) =
        put_key (f @ ''/'' @ x) (buckets s (s3_bucket_name r))"
    using ok by (simp add: upload_one_result [OF cl] Let_def)
  show fin: "fst (for_loop (upload_one ev r f) xs st) = Inr ()"
    by (rule for_loop_ok) (simp add: step)
  show "buckets (snd (for_loop (upload_one ev r f) xs st)) (s3_bucket_name r) =
           fold (\<lambda>n. put_key (f @ ''/'' @ n)) xs (buckets st (s3_bucket_name r))"
    by (rule for_loop_fold [where h = "\<lambda>s. buckets s (s3_bucket_name r)", OF _ fin])
       (simp add: step)
qed

lemma delete_loop_buckets:
  assumes ok: "\<forall>n\<in>set xs. delete_error ev c (s3_bucket_name r) (f @ ''/'' @ n) = None"
  shows "fst (for_loop (delete_one ev r c f) xs st) = Inr ()"
    and "buckets (snd (for_loop (delete_one ev r c f) xs st)) (s3_bucket_name r) =
           fold (\<lambda>n. removeAll (f @ ''/'' @ n)) xs (buckets st (s3_bucket_name r))"
proof -
  have step: "\<And>x s. x \<in> set xs \<Longrightarrow>
      fst (delete_one ev r c f x s) = Inr () \<and>
      buckets (snd (delete_one ev r c f x s)) (s3_bucket_name r) =
        removeAll (f @ ''/'' @ x) (buckets s (s3_bucket_name r))"
    using ok by (simp add: delete_one_result Let_def)
  show fin: "fst (for_loop (delete_one ev r c f) xs st) = Inr ()"
    by (rule for_loop_ok) (simp add: step)
  show "buckets (snd (for_loop (delete_one ev r c f) xs st)) (s3_bucket_name r) =
           fold (\<lambda>n. removeAll (f @ ''/'' @ n)) xs (buckets st (s3_bucket_name r))"
    by (rule for_loop_fold [where h = "\<lambda>s. buckets s (s3_bucket_name r)", OF _ fin])
       (simp add: step)
qed

lemma reconcile_buckets:
  assumes cl: "client_error ev (s3_access_key r) (s3_secret_key r) (s3_region r) = None"
    and c: "c = S3Client (s3_access_key r) (s3_secret_key r) (s3_region r)"
    and up: "\<forall>n\<in>set local - set (s3_files objs).
               upload_error ev c (path_join (folder r) n) (s3_bucket_name r) (f @ ''/'' @ n) = None"
    and del: "\<forall>n\<in>set (s3_files objs) - set local.
               delete_error ev c (s3_bucket_name r) (f @ ''/'' @ n) = None"
  shows "fst (reconcile ev st r c f local objs) = Inr ()"
    and "set (buckets (snd (reconcile ev st r c f local objs)) (s3_bucket_name r)) =
           (set (buckets st (s3_bucket_name r)) \<union> (\<lambda>n. f @ ''/'' @ n) ` (set local - set (s3_files objs)))
           - (\<lambda>n. f @ ''/'' @ n) ` (set (s3_files objs) - set local)"
    and "distinct (buckets st (s3_bucket_name r)) \<Longrightarrow>
         distinct (buckets (snd (reconcile ev st r c f local objs)) (s3_bucket_name r))"
proof -
  let ?ups = "set_iter (set_order ev) (files_to_upload local (s3_files objs))"
  let ?dels = "set_iter (set_order ev) (files_to_delete local (s3_files objs))"
  have up': "\<forall>n\<in>set ?ups. upload_error ev (S3Client (s3_access_key r) (s3_secret_key r) (s3_region r))
               (path_join (folder r) n) (s3_bucket_name r) (f @ ''/'' @ n) = None"
    using up c by (simp add: set_files_to_upload)
  have del': "\<forall>n\<in>set ?dels. delete_error ev c (s3_bucket_name r) (f @ ''/'' @ n) = None"
    using del by (simp add: set_files_to_delete)
  note u = upload_loop_buckets [OF cl up', where st = st]
  from u(1) obtain st1 where st1: "for_loop (upload_one ev r f) ?ups st = (Inr (), st1)"
    by (cases "for_loop (upload_one ev r f) ?ups st") auto
  have rc: "reconcile ev st r c f local objs = for_loop (delete_one ev r c f) ?dels st1"
    using st1 by (simp add: reconcile_def)
  note d = delete_loop_buckets [OF del', where st = st1]
  from d(1) rc show "fst (reconcile ev st r c f local objs) = Inr ()" by simp
  have b1: "buckets st1 (s3_bucket_name r) =
      fold (\<lambda>n. put_key (f @ ''/'' @ n)) ?ups (buckets st (s3_bucket_name r))"
    using u(2) st1 by simp
  have b2: "buckets (snd (reconcile ev st r c f local objs)) (s3_bucket_name r) =
      fold (\<lambda>n. removeAll (f @ ''/'' @ n)) ?dels (buckets st1 (s3_bucket_name r))"
    using d(2) rc by simp
  show "set (buckets (snd (reconcile ev st r c f local objs)) (s3_bucket_name r)) =
           (set (buckets st (s3_bucket_name r)) \<union> (\<lambda>n. f @ ''/'' @ n) ` (set local - set (s3_files objs)))
           - (\<lambda>n. f @ ''/'' @ n) ` (set (s3_files objs) - set local)"
    by (simp only: b2 b1 set_fold_removeAll set_fold_put_key set_set_iter
                   set_files_to_upload set_files_to_delete)
  show "distinct (buckets st (s3_bucket_name r)) \<Longrightarrow>
         distinct (buckets (snd (reconcile ev st r c f local objs)) (s3_bucket_name r))"
    by (simp only: b2 b1 distinct_fold_removeAll distinct_fold_put_key)
qed

lemma startswith_append [simp]: "startswith (p @ rest) p"
  by (simp add: startswith_def)

lemma startswith_decompose:
  assumes "startswith k p"
  shows "k = p @ drop (length p) k"
proof -
  from assms have "take (length p) k = p" by (simp add: startswith_def)
  then have "p @ drop (length p) k = take (length p) k @ drop (length p) k" by simp
  then show ?thesis by simp
qed

lemma s3_file_flat:
  assumes "CHR ''/'' \<notin> set n"
  shows "s3_file \<lparr>Key = f @ ''/'' @ n\<rparr> = n"
  using assms s3_file_key [of f n] by (simp add: split_no_sep)

lemma set_s3_files: "set (s3_files objs) = s3_file ` set objs"
  by (simp add: s3_files_def)

lemma basename_slash_free: "CHR ''/'' \<notin> set (basename p)"
proof
  assume "CHR ''/'' \<in> set (basename p)"
  then have "CHR ''/'' \<in> set (takeWhile (\<lambda>c. c \<noteq> CHR ''/'') (rev p))"
    by (simp add: basename_def)
  then show False by (auto dest: set_takeWhileD)
qed

lemma local_files_slash_free:
  assumes "local_files ev st p = (Inr local, st1)"
  shows "\<forall>n\<in>set local. CHR ''/'' \<notin> set n"
proof
  fix n assume "n \<in> set local"
  with local_files_Inr(1) [OF assms] obtain x where "n = basename x" by auto
  then show "CHR ''/'' \<notin> set n" by (simp add: basename_slash_free)
qed

lemma local_files_distinct:
  assumes "local_files ev st p = (Inr local, st1)"
  shows "distinct local"
  using local_files_Inr(1) [OF assms] by auto

lemma mirror_keys:
  fixes f :: string and B :: "string set"
  assumes flat: "\<forall>k\<in>B. startswith k (f @ ''/'') \<longrightarrow> CHR ''/'' \<notin> set (drop (length f + 1) k)"
    and R: "R = (\<lambda>k. s3_file \<lparr>Key = k\<rparr>) ` {k \<in> B. startswith k (f @ ''/'')}"
  shows "{k \<in> (B \<union> (\<lambda>n. f @ ''/'' @ n) ` (L - R)) - (\<lambda>n. f @ ''/'' @ n) ` (R - L).
            startswith k (f @ ''/'')} = (\<lambda>n. f @ ''/'' @ n) ` L"
proof -
  let ?K = "\<lambda>n. f @ ''/'' @ n"
  let ?M = "{k \<in> B. startswith k (f @ ''/'')}"
  have starts: "\<And>n. startswith (?K n) (f @ ''/'')"
    using startswith_append [of "f @ ''/''"] by simp
  have inj: "\<And>n m. ?K n = ?K m \<Longrightarrow> n = m" by simp
  have key: "\<And>k. k \<in> ?M \<Longrightarrow> k = ?K (s3_file \<lparr>Key = k\<rparr>)"
  proof -
    fix k assume k: "k \<in> ?M"
    then have d: "k = (f @ ''/'') @ drop (length (f @ ''/'')) k"
      by (intro startswith_decompose) simp
    let ?rest = "drop (length f + 1) k"
    from d have d': "k = f @ ''/'' @ ?rest" by simp
    from k flat have "CHR ''/'' \<notin> set ?rest" by blast
    then have "s3_file \<lparr>Key = f @ ''/'' @ ?rest\<rparr> = ?rest" by (rule s3_file_flat)
    with d' have "s3_file \<lparr>Key = k\<rparr> = ?rest" by simp
    with d' show "k = ?K (s3_file \<lparr>Key = k\<rparr>)" by simp
  qed
  have M: "?M = ?K ` R"
  proof
    show "?M \<subseteq> ?K ` R"
    proof
      fix k assume k: "k \<in> ?M"
      then have "s3_file \<lparr>Key = k\<rparr> \<in> R" using R by blast
      with key [OF k] show "k \<in> ?K ` R" by blast
    qed
    show "?K ` R \<subseteq> ?M"
    proof
      fix k assume "k \<in> ?K ` R"
      then obtain n where n: "n \<in> R" and kn: "k = ?K n" by blast
      from n R obtain k' where k': "k' \<in> ?M" and nk: "n = s3_file \<lparr>Key = k'\<rparr>" by blast
      from key [OF k'] nk kn have "k = k'" by simp
      with k' show "k \<in> ?M" by simp
    qed
  qed
  have "{k \<in> (B \<union> ?K ` (L - R)) - ?K ` (R - L). startswith k (f @ ''/'')}
        = (?M \<union> ?K ` (L - R)) - ?K ` (R - L)"
    using starts by blast
  also have "\<dots> = (?K ` R \<union> ?K ` (L - R)) - ?K ` (R - L)" by (simp only: M)
  also have "\<dots> = ?K ` L"
  proof
    show "(?K ` R \<union> ?K ` (L - R)) - ?K ` (R - L) \<subseteq> ?K ` L"
    proof
      fix k assume a: "k \<in> (?K ` R \<union> ?K ` (L - R)) - ?K ` (R - L)"
      then obtain n where kn: "k = ?K n" and n: "n \<in> R \<or> n \<in> L - R" by blast
      from a kn have "n \<notin> R - L" by blast
      with n have "n \<in> L" by blast
      with kn show "k \<in> ?K ` L" by blast
    qed
    show "?K ` L \<subseteq> (?K ` R \<union> ?K ` (L - R)) - ?K ` (R - L)"
    proof
      fix k assume "k \<in> ?K ` L"
      then obtain n where kn: "k = ?K n" and n: "n \<in> L" by blast
      have "k \<notin> ?K ` (R - L)"
      proof
        assume "k \<in> ?K ` (R - L)"
        then obtain m where "k = ?K m" and m: "m \<in> R - L" by blast
        with kn have "n = m" by simp
        with m n show False by simp
      qed
      moreover from kn n have "k \<in> ?K ` R \<union> ?K ` (L - R)" by blast
      ultimately show "k \<in> (?K ` R \<union> ?K ` (L - R)) - ?K ` (R - L)" by simp
    qed
  qed
  finally show ?thesis .
qed

lemma single_level_iff:
  "single_level st b f =
     (\<forall>k\<in>set (buckets st b). startswith k (f @ ''/'') \<longrightarrow> CHR ''/'' \<notin> set (drop (length f + 1) k))"
  by (auto simp: single_level_def list_all_iff)

lemma set_remote_object_set:
  "set (remote_object_set st b f) =
     (\<lambda>k. s3_file \<lparr>Key = k\<rparr>) ` {k \<in> set (buckets st b). startswith k (f @ ''/'')}"
  by (auto simp: remote_object_set_def set_s3_files)

lemma names_of_mirror:
  assumes "\<forall>n\<in>L. CHR ''/'' \<notin> set n"
  shows "(\<lambda>k. s3_file \<lparr>Key = k\<rparr>) ` ((\<lambda>n. f @ ''/'' @ n) ` L) = L"
proof -
  have "\<And>n. n \<in> L \<Longrightarrow> s3_file \<lparr>Key = f @ ''/'' @ n\<rparr> = n"
    using assms s3_file_flat by blast
  then show ?thesis by (force simp: image_image)
qed

lemma cycle_mirrors:
  assumes w: "s3_write r" and nm: "s3_folder_name r = Some name"
    and lf: "local_files ev st (folder r) = (Inr local, st1)"
    and rl: "remote_listing ev st1 r (strip name) = (Inr (c, s3_objects), st2)"
    and flat: "single_level st (s3_bucket_name r) (strip name)"
    and page: "length (filter (\<lambda>k. startswith k (strip name @ ''/''))
                 (buckets st (s3_bucket_name r))) \<le> max_keys ev"
    and up: "\<forall>n\<in>set local - set (s3_files s3_objects).
               upload_error ev c (path_join (folder r) n) (s3_bucket_name r)
                 (strip name @ ''/'' @ n) = None"
    and del: "\<forall>n\<in>set (s3_files s3_objects) - set local.
               delete_error ev c (s3_bucket_name r) (strip name @ ''/'' @ n) = None"
  shows "fst (schedule_backup_rec ev st r) = Inr ()"
    and "{k \<in> set (buckets (snd (schedule_backup_rec ev st r)) (s3_bucket_name r)).
            startswith k (strip name @ ''/'')} = (\<lambda>n. strip name @ ''/'' @ n) ` set local"
    and "distinct (buckets st (s3_bucket_name r)) \<Longrightarrow>
         distinct (buckets (snd (schedule_backup_rec ev st r)) (s3_bucket_name r))"
proof -
  let ?b = "s3_bucket_name r" and ?f = "strip name"
  have rc: "schedule_backup_rec ev st r = reconcile ev st2 r c ?f local s3_objects"
    using w nm lf rl by (rule schedule_backup_rec_reconcile)
  note cl = remote_listing_Inr(1) [OF rl] and c = remote_listing_Inr(2) [OF rl]
  have b1: "buckets st1 = buckets st" using local_files_Inr(2) [OF lf] by simp
  have b2: "buckets st2 = buckets st" using scan_and_listing_trace(3) [OF lf rl] .
  have objs: "s3_objects = map (\<lambda>k. \<lparr>Key = k\<rparr>)
      (filter (\<lambda>k. startswith k (?f @ ''/'')) (buckets st ?b))"
    using remote_listing_Inr(4) [OF rl] page by (simp add: b1)
  have R: "set (s3_files s3_objects) =
      (\<lambda>k. s3_file \<lparr>Key = k\<rparr>) ` {k \<in> set (buckets st ?b). startswith k (?f @ ''/'')}"
    by (auto simp: objs set_s3_files)
  note rb = reconcile_buckets [OF cl c up del, where st = st2]
  from rb(1) rc show "fst (schedule_backup_rec ev st r) = Inr ()" by simp
  have after: "set (buckets (snd (schedule_backup_rec ev st r)) ?b) =
      (set (buckets st ?b) \<union> (\<lambda>n. ?f @ ''/'' @ n) ` (set local - set (s3_files s3_objects)))
       - (\<lambda>n. ?f @ ''/'' @ n) ` (set (s3_files s3_objects) - set local)"
    using rb(2) rc b2 by simp
  from flat have flat': "\<forall>k\<in>set (buckets st ?b). startswith k (?f @ ''/'')
        \<longrightarrow> CHR ''/'' \<notin> set (drop (length ?f + 1) k)"
    by (simp add: single_level_iff)
  show "{k \<in> set (buckets (snd (schedule_backup_rec ev st r)) ?b). startswith k (?f @ ''/'')}
          = (\<lambda>n. ?f @ ''/'' @ n) ` set local"
    unfolding after by (rule mirror_keys [OF flat' R])
  show "distinct (buckets st ?b) \<Longrightarrow> distinct (buckets (snd (schedule_backup_rec ev st r)) ?b)"
    using rb(3) rc b2 by simp
qed

text \<open>
  Claim C3, as the code has it. Let the keys below \<open>prefix/\<close> be single-level and fit
  in one page of the listing. If the scan and the listing succeed and every planned
  upload and delete succeeds, the cycle returns normally and afterwards the names of
  the objects below \<open>prefix/\<close> are the names of the local files.
\<close>

theorem successful_cycle_mirrors_folder:
  assumes "s3_write r" and "s3_folder_name r = Some name"
    and "local_files ev st (folder r) = (Inr local, st1)"
    and "remote_listing ev st1 r (strip name) = (Inr (c, s3_objects), st2)"
    and "single_level st (s3_bucket_name r) (strip name)"
    and "length (filter (\<lambda>k. startswith k (strip name @ ''/''))
                 (buckets st (s3_bucket_name r))) \<le> max_keys ev"
    and "\<forall>n\<in>set local - set (s3_files s3_objects).
               upload_error ev c (path_join (folder r) n) (s3_bucket_name r)
                 (strip name @ ''/'' @ n) = None"
    and "\<forall>n\<in>set (s3_files s3_objects) - set local.
               delete_error ev c (s3_bucket_name r) (strip name @ ''/'' @ n) = None"
  shows "fst (schedule_backup_rec ev st r) = Inr ()
    \<and> set (remote_object_set (snd (schedule_backup_rec ev st r)) (s3_bucket_name r) (strip name))
        = set local"
proof -
  note m = cycle_mirrors [OF assms]
  have "set (remote_object_set (snd (schedule_backup_rec ev st r)) (s3_bucket_name r) (strip name))
      = (\<lambda>k. s3_file \<lparr>Key = k\<rparr>) ` ((\<lambda>n. strip name @ ''/'' @ n) ` set local)"
    by (simp only: set_remote_object_set m(2))
  also have "\<dots> = set local"
    by (rule names_of_mirror) (rule local_files_slash_free [OF assms(3)])
  finally show ?thesis using m(1) by simp
qed

text \<open>
  Claim C3 as stated fails for a key one folder deeper: for \<open>db/sub/c.sql\<close> the cycle
  computes the name \<open>c.sql\<close> and deletes the key \<open>db/c.sql\<close>, which does not exist; every
  call succeeds, and the object stays, so the remote names are not the local ones.
\<close>

theorem nested_key_survives_counterexample:
  "fst (local_files ex_env ex_state_nested (folder ex_rec)) = Inr [''a.sql'', ''b.sql'']
   \<and> fst (schedule_backup_rec ex_env ex_state_nested ex_rec) = Inr ()
   \<and> trace (snd (schedule_backup_rec ex_env ex_state_nested ex_rec)) =
       [ListDir ''/backups'', Boto3Client ''AK'' ''SK'' ''eu'',
        ListObjectsV2 (S3Client ''AK'' ''SK'' ''eu'') ''bk'' (Some ''db/''),
        Boto3Client ''AK'' ''SK'' ''eu'',
        UploadFile (S3Client ''AK'' ''SK'' ''eu'') ''/backups/a.sql'' ''bk'' ''db/a.sql'',
        LogInfo ''Successfully uploaded /backups/a.sql to S3 bucket bk'',
        LogInfo ''Uploaded file to S3: db/a.sql'',
        DeleteObject (S3Client ''AK'' ''SK'' ''eu'') ''bk'' ''db/c.sql'',
        LogInfo ''Deleted file from S3: db/c.sql'']
   \<and> buckets (snd (schedule_backup_rec ex_env ex_state_nested ex_rec)) ''bk''
       = [''db/a.sql'', ''db/b.sql'', ''db/sub/c.sql'']
   \<and> remote_object_set (snd (schedule_backup_rec ex_env ex_state_nested ex_rec)) ''bk'' ''db''
       = [''a.sql'', ''b.sql'', ''c.sql'']
   \<and> set [''a.sql'', ''b.sql'', ''c.sql''] \<noteq> set [''a.sql'', ''b.sql'']"
  by code_simp

lemma local_files_any_state:
  assumes "local_files ev st p = (Inr local, st1)"
  shows "local_files ev s p = (Inr local, s\<lparr>trace := trace s @ [ListDir p]\<rparr>)"
  using assms by (auto simp: local_files_def emit_def Let_def split: sum.splits)

lemma remote_listing_ok:
  assumes "client_error ev (s3_access_key r) (s3_secret_key r) (s3_region r) = None"
    and "list_error ev (S3Client (s3_access_key r) (s3_secret_key r) (s3_region r))
           (s3_bucket_name r) (Some (f @ ''/'')) = None"
  shows "remote_listing ev s r f =
     (Inr (S3Client (s3_access_key r) (s3_secret_key r) (s3_region r),
           map (\<lambda>k. \<lparr>Key = k\<rparr>) (take (max_keys ev)
             (filter (\<lambda>k. startswith k (f @ ''/'')) (buckets s (s3_bucket_name r))))),
      s\<lparr>trace := trace s @ [Boto3Client (s3_access_key r) (s3_secret_key r) (s3_region r),
         ListObjectsV2 (S3Client (s3_access_key r) (s3_secret_key r) (s3_region r))
           (s3_bucket_name r) (Some (f @ ''/''))]\<rparr>)"
  using assms
  by (simp add: remote_listing_def get_s3_client_def boto3_client_def list_s3_objects_def
        list_objects_v2_def matching_keys_def emit_def Let_def)

text \<open>
  Claim C6, as the code has it. Let the keys below \<open>prefix/\<close> be single-level, let them
  and the local files each fit in one page of the listing, and let the bucket hold
  each key once. If the scan and the listing of a first cycle succeed and every
  planned upload and delete of it succeeds, then a second cycle, run in the state the
  first one left and in the same environment, returns normally with no further upload
  or delete call and the buckets unchanged.
\<close>

theorem second_run_is_idle:
  assumes "s3_write r" and "s3_folder_name r = Some name"
    and "local_files ev st (folder r) = (Inr local, st1)"
    and "remote_listing ev st1 r (strip name) = (Inr (c, s3_objects), st2)"
    and "single_level st (s3_bucket_name r) (strip name)"
    and "length (filter (\<lambda>k. startswith k (strip name @ ''/''))
                 (buckets st (s3_bucket_name r))) \<le> max_keys ev"
    and "\<forall>n\<in>set local - set (s3_files s3_objects).
               upload_error ev c (path_join (folder r) n) (s3_bucket_name r)
                 (strip name @ ''/'' @ n) = None"
    and "\<forall>n\<in>set (s3_files s3_objects) - set local.
               delete_error ev c (s3_bucket_name r) (strip name @ ''/'' @ n) = None"
    and "distinct (buckets st (s3_bucket_name r))"
    and "length local \<le> max_keys ev"
  shows "fst (schedule_backup_rec ev (snd (schedule_backup_rec ev st r)) r) = Inr ()
    \<and> upload_calls (trace (snd (schedule_backup_rec ev (snd (schedule_backup_rec ev st r)) r)))
        = upload_calls (trace (snd (schedule_backup_rec ev st r)))
    \<and> delete_calls (trace (snd (schedule_backup_rec ev (snd (schedule_backup_rec ev st r)) r)))
        = delete_calls (trace (snd (schedule_backup_rec ev st r)))
    \<and> buckets (snd (schedule_backup_rec ev (snd (schedule_backup_rec ev st r)) r))
        = buckets (snd (schedule_backup_rec ev st r))"
proof -
  let ?b = "s3_bucket_name r" and ?f = "strip name"
  let ?s = "snd (schedule_backup_rec ev st r)"
  let ?K = "\<lambda>n. ?f @ ''/'' @ n"
  note m = cycle_mirrors [OF assms(1-8)]
  note cl = remote_listing_Inr(1) [OF assms(4)] and c = remote_listing_Inr(2) [OF assms(4)]
  have le: "list_error ev (S3Client (s3_access_key r) (s3_secret_key r) (s3_region r)) ?b
              (Some (?f @ ''/'')) = None"
    using remote_listing_Inr(3) [OF assms(4)] c by simp
  let ?s1 = "?s\<lparr>trace := trace ?s @ [ListDir (folder r)]\<rparr>"
  have lf': "local_files ev ?s (folder r) = (Inr local, ?s1)"
    using assms(3) by (rule local_files_any_state)
  let ?found = "filter (\<lambda>k. startswith k (?f @ ''/'')) (buckets ?s ?b)"
  let ?objs = "map (\<lambda>k. \<lparr>Key = k\<rparr>) (take (max_keys ev) ?found)"
  let ?s2 = "?s1\<lparr>trace := trace ?s1 @
       [Boto3Client (s3_access_key r) (s3_secret_key r) (s3_region r),
        ListObjectsV2 (S3Client (s3_access_key r) (s3_secret_key r) (s3_region r)) ?b
          (Some (?f @ ''/''))]\<rparr>"
  have rl': "remote_listing ev ?s1 r ?f = (Inr (c, ?objs), ?s2)"
    using remote_listing_ok [OF cl le, of ?s1] c by simp
  have sf: "set ?found = ?K ` set local" using m(2) by simp
  have "distinct (buckets ?s ?b)" using assms(9) by (rule m(3))
  then have "distinct ?found" by simp
  then have "length ?found = card (set ?found)" by (rule distinct_card [symmetric])
  also have "\<dots> = card (?K ` set local)" by (simp only: sf)
  also have "\<dots> \<le> card (set local)" by (rule card_image_le) simp
  also have "\<dots> \<le> length local" by (rule card_length)
  finally have "length ?found \<le> max_keys ev" using assms(10) by simp
  then have all: "take (max_keys ev) ?found = ?found" by simp
  have "set (s3_files ?objs) = (\<lambda>k. s3_file \<lparr>Key = k\<rparr>) ` set ?found"
    by (simp only: all) (auto simp: set_s3_files)
  also have "\<dots> = (\<lambda>k. s3_file \<lparr>Key = k\<rparr>) ` (?K ` set local)" by (simp only: sf)
  also have "\<dots> = set local"
    by (rule names_of_mirror) (rule local_files_slash_free [OF assms(3)])
  finally have same: "set local = set (s3_files ?objs)" by simp
  have "schedule_backup_rec ev ?s r = reconcile ev ?s2 r c ?f local ?objs"
    using assms(1,2) lf' rl' by (rule schedule_backup_rec_reconcile)
  also have "\<dots> = (Inr (), ?s2)" using same by (rule reconcile_in_sync)
  finally have run2: "schedule_backup_rec ev ?s r = (Inr (), ?s2)" .
  show ?thesis
    by (simp add: run2 upload_calls_append delete_calls_append)
qed

text \<open>The example world meets the conditions.\<close>

lemma ex_hypotheses:
  "s3_write ex_rec" "s3_folder_name ex_rec = Some '' db ''"
  "local_files ex_env ex_state (folder ex_rec) =
     (Inr [''a.sql'', ''b.sql''], ex_state\<lparr>trace := trace ex_state @ [ListDir ''/backups'']\<rparr>)"
  "remote_listing ex_env (ex_state\<lparr>trace := trace ex_state @ [ListDir ''/backups'']\<rparr>) ex_rec
      (strip '' db '') =
     (Inr (S3Client ''AK'' ''SK'' ''eu'', [\<lparr>Key = ''db/b.sql''\<rparr>, \<lparr>Key = ''db/c.sql''\<rparr>]),
      ex_state\<lparr>trace := trace ex_state @ [ListDir ''/backups'']\<rparr>
        \<lparr>trace := trace (ex_state\<lparr>trace := trace ex_state @ [ListDir ''/backups'']\<rparr>) @
           [Boto3Client ''AK'' ''SK'' ''eu'',
            ListObjectsV2 (S3Client ''AK'' ''SK'' ''eu'') ''bk'' (Some ''db/'')]\<rparr>)"
  "single_level ex_state (s3_bucket_name ex_rec) (strip '' db '')"
  "length (filter (\<lambda>k. startswith k (strip '' db '' @ ''/''))
             (buckets ex_state (s3_bucket_name ex_rec))) \<le> max_keys ex_env"
  "\<forall>n\<in>set [''a.sql'', ''b.sql''] - set (s3_files [\<lparr>Key = ''db/b.sql''\<rparr>, \<lparr>Key = ''db/c.sql''\<rparr>]).
      upload_error ex_env (S3Client ''AK'' ''SK'' ''eu'') (path_join (folder ex_rec) n)
        (s3_bucket_name ex_rec) (strip '' db '' @ ''/'' @ n) = None"
  "\<forall>n\<in>set (s3_files [\<lparr>Key = ''db/b.sql''\<rparr>, \<lparr>Key = ''db/c.sql''\<rparr>]) - set [''a.sql'', ''b.sql''].
      delete_error ex_env (S3Client ''AK'' ''SK'' ''eu'') (s3_bucket_name ex_rec)
        (strip '' db '' @ ''/'' @ n) = None"
  "distinct (buckets ex_state (s3_bucket_name ex_rec))"
  "length [''a.sql'', ''b.sql''] \<le> max_keys ex_env"
proof -
  have fo: "folder ex_rec = ''/backups''" and bk: "s3_bucket_name ex_rec = ''bk''"
    by (simp_all add: ex_rec_def)
  show "s3_write ex_rec" "s3_folder_name ex_rec = Some '' db ''"
    by (simp_all add: ex_rec_def)
  show "local_files ex_env ex_state (folder ex_rec) =
     (Inr [''a.sql'', ''b.sql''], ex_state\<lparr>trace := trace ex_state @ [ListDir ''/backups'']\<rparr>)"
    by (simp add: fo ex_local_files)
  show "remote_listing ex_env (ex_state\<lparr>trace := trace ex_state @ [ListDir ''/backups'']\<rparr>) ex_rec
      (strip '' db '') =
     (Inr (S3Client ''AK'' ''SK'' ''eu'', [\<lparr>Key = ''db/b.sql''\<rparr>, \<lparr>Key = ''db/c.sql''\<rparr>]),
      ex_state\<lparr>trace := trace ex_state @ [ListDir ''/backups'']\<rparr>
        \<lparr>trace := trace (ex_state\<lparr>trace := trace ex_state @ [ListDir ''/backups'']\<rparr>) @
           [Boto3Client ''AK'' ''SK'' ''eu'',
            ListObjectsV2 (S3Client ''AK'' ''SK'' ''eu'') ''bk'' (Some ''db/'')]\<rparr>)"
    by (simp add: ex_strip ex_remote_listing ex_state_def startswith_def)
  show "single_level ex_state (s3_bucket_name ex_rec) (strip '' db '')"
    by (simp add: single_level_def bk ex_strip ex_state_def startswith_def)
  show "length (filter (\<lambda>k. startswith k (strip '' db '' @ ''/''))
             (buckets ex_state (s3_bucket_name ex_rec))) \<le> max_keys ex_env"
    by (simp add: bk ex_strip ex_state_def startswith_def ex_env_def)
  show "\<forall>n\<in>set [''a.sql'', ''b.sql''] - set (s3_files [\<lparr>Key = ''db/b.sql''\<rparr>, \<lparr>Key = ''db/c.sql''\<rparr>]).
      upload_error ex_env (S3Client ''AK'' ''SK'' ''eu'') (path_join (folder ex_rec) n)
        (s3_bucket_name ex_rec) (strip '' db '' @ ''/'' @ n) = None"
    by (simp add: ex_env_def)
  show "\<forall>n\<in>set (s3_files [\<lparr>Key = ''db/b.sql''\<rparr>, \<lparr>Key = ''db/c.sql''\<rparr>]) - set [''a.sql'', ''b.sql''].
      delete_error ex_env (S3Client ''AK'' ''SK'' ''eu'') (s3_bucket_name ex_rec)
        (strip '' db '' @ ''/'' @ n) = None"
    by (simp add: ex_env_def)
  show "distinct (buckets ex_state (s3_bucket_name ex_rec))"
    by (simp add: bk ex_state_def)
  show "length [''a.sql'', ''b.sql''] \<le> max_keys ex_env"
    by (simp add: ex_env_def)
qed

theorem successful_cycle_mirrors_folder_witness:
  "s3_write ex_rec \<and> s3_folder_name ex_rec = Some '' db ''
   \<and> fst (local_files ex_env ex_state (folder ex_rec)) = Inr [''a.sql'', ''b.sql'']
   \<and> single_level ex_state (s3_bucket_name ex_rec) (strip '' db '')
   \<and> upload_error ex_env = (\<lambda>c f b k. None) \<and> delete_error ex_env = (\<lambda>c b k. None)
   \<and> fst (schedule_backup_rec ex_env ex_state ex_rec) = Inr ()
   \<and> set (remote_object_set (snd (schedule_backup_rec ex_env ex_state ex_rec)) ''bk'' ''db'')
       = set [''a.sql'', ''b.sql'']"
proof -
  note h = ex_hypotheses
  have bk: "s3_bucket_name ex_rec = ''bk''" by (simp add: ex_rec_def)
  have e: "upload_error ex_env = (\<lambda>c f b k. None)" "delete_error ex_env = (\<lambda>c b k. None)"
    by (simp_all add: ex_env_def)
  from successful_cycle_mirrors_folder [OF h(1-8)]
  have "fst (schedule_backup_rec ex_env ex_state ex_rec) = Inr ()
     \<and> set (remote_object_set (snd (schedule_backup_rec ex_env ex_state ex_rec)) ''bk'' ''db'')
       = set [''a.sql'', ''b.sql'']"
    by (simp only: bk ex_strip)
  with h(1,2,5) h(3) e show ?thesis by simp
qed

theorem second_run_is_idle_witness:
  "s3_write ex_rec \<and> s3_folder_name ex_rec = Some '' db ''
   \<and> fst (local_files ex_env ex_state (folder ex_rec)) = Inr [''a.sql'', ''b.sql'']
   \<and> single_level ex_state (s3_bucket_name ex_rec) (strip '' db '')
   \<and> distinct (buckets ex_state (s3_bucket_name ex_rec))
   \<and> upload_calls (trace (snd (schedule_backup_rec ex_env ex_state ex_rec))) = [(''bk'', ''db/a.sql'')]
   \<and> delete_calls (trace (snd (schedule_backup_rec ex_env ex_state ex_rec))) = [(''bk'', ''db/c.sql'')]
   \<and> fst (schedule_backup_rec ex_env (snd (schedule_backup_rec ex_env ex_state ex_rec)) ex_rec) = Inr ()
   \<and> upload_calls (trace (snd (schedule_backup_rec ex_env
         (snd (schedule_backup_rec ex_env ex_state ex_rec)) ex_rec))) = [(''bk'', ''db/a.sql'')]
   \<and> delete_calls (trace (snd (schedule_backup_rec ex_env
         (snd (schedule_backup_rec ex_env ex_state ex_rec)) ex_rec))) = [(''bk'', ''db/c.sql'')]"
proof -
  note h = ex_hypotheses
  have u1: "upload_calls (trace (snd (schedule_backup_rec ex_env ex_state ex_rec))) = [(''bk'', ''db/a.sql'')]"
    and d1: "delete_calls (trace (snd (schedule_backup_rec ex_env ex_state ex_rec))) = [(''bk'', ''db/c.sql'')]"
    by code_simp+
  note a = second_run_is_idle [OF h]
  from a u1 d1 h(1,2,5,9) h(3) show ?thesis by simp
qed

text \<open>
  Claim C6 as stated fails in two ways. With the key \<open>db/sub/c.sql\<close> every call of the
  first cycle succeeds and the second cycle calls \<open>delete_object\<close> on \<open>db/c.sql\<close>
  again. And when the upload of the first cycle fails (and is logged), the second
  cycle calls \<open>upload_file\<close> again.
\<close>

theorem second_run_repeats_counterexample:
  "fst (schedule_backup_rec ex_env ex_state_nested ex_rec) = Inr ()
   \<and> delete_calls (trace (snd (schedule_backup_rec ex_env ex_state_nested ex_rec)))
       = [(''bk'', ''db/c.sql'')]
   \<and> fst (schedule_backup_rec ex_env (snd (schedule_backup_rec ex_env ex_state_nested ex_rec)) ex_rec)
       = Inr ()
   \<and> delete_calls (trace (snd (schedule_backup_rec ex_env
         (snd (schedule_backup_rec ex_env ex_state_nested ex_rec)) ex_rec)))
       = [(''bk'', ''db/c.sql''), (''bk'', ''db/c.sql'')]
   \<and> upload_calls (trace (snd (schedule_backup_rec ex_env_flaky ex_state ex_rec)))
       = [(''bk'', ''db/a.sql'')]
   \<and> upload_calls (trace (snd (schedule_backup_rec ex_env_flaky
         (snd (schedule_backup_rec ex_env_flaky ex_state ex_rec)) ex_rec)))
       = [(''bk'', ''db/a.sql''), (''bk'', ''db/a.sql'')]"
  by code_simp

end
